theory Spec2Isabelle
  imports Main "HOL-Library.Multiset"
begin

section \<open>Stored records and the settings backend\<close>

text \<open>
  The connection store of \<^verbatim>\<open>src/connectionconfig/connectionconfig.ts\<close>.
  A field of a stored record is an optional string: \<open>None\<close> is JavaScript's
  \<^verbatim>\<open>undefined\<close>, \<open>Some s\<close> a string. \<^verbatim>\<open>a === b\<close> on such fields is
  equality of the options (two absent fields are equal), and a field is truthy when it
  is a non-empty string.
\<close>

definition truthy :: "string option \<Rightarrow> bool" where
  "truthy v = (case v of None \<Rightarrow> False | Some s \<Rightarrow> s \<noteq> [])"

text \<open>
  \<^verbatim>\<open>IConnectionProfile\<close>: the fields this file reads. Every other field of a profile
  (database, user, authentication type, ...) lives in the record's extension part, which
  record update keeps, as the object spread \<^verbatim>\<open>{ ...conn, groupId: id }\<close> does.
  The source's field \<^verbatim>\<open>id\<close> is \<open>profile_id\<close> here.
\<close>

record IConnectionProfile =
  profile_id :: "string option"
  groupId :: "string option"
  profileName :: "string option"
  server :: "string option"
  connectionString :: "string option"

text \<open>\<^verbatim>\<open>IConnectionGroup\<close>; the source's fields \<^verbatim>\<open>id\<close> and \<^verbatim>\<open>name\<close> are
  \<open>group_id\<close> and \<open>group_name\<close>.\<close>

record IConnectionGroup =
  group_id :: "string option"
  group_name :: "string option"
  parentId :: "string option"

datatype ConfigurationTarget = Global | Workspace

datatype settingsSection = connectionsArrayName | connectionGroupsArrayName

datatype contentAction = Delete | Move

datatype error =
    TypeError
  | ConnectionNotFound "string option"
  | GroupNotFound "string option"
  | RootGroupNotFound

text \<open>The lines the integrity pass sends to \<^verbatim>\<open>_logger.logDebug\<close>, one constructor
  per call site, with the record the line is about as it is when the line is written.\<close>

datatype 'p logEvent =
    MigratedGroup IConnectionGroup
  | ReparentedOrphanedGroup IConnectionGroup
  | AddingMissingGroupId IConnectionGroup
  | AddingMissingParentId IConnectionGroup
  | WritingGroups nat
  | MigratedConnection "'p IConnectionProfile_scheme"
  | ReparentedOrphanedConnection "'p IConnectionProfile_scheme"
  | AddingMissingConnectionIds "'p IConnectionProfile_scheme"
  | WritingConnections nat

text \<open>
  What the file imports and \<^verbatim>\<open>src/\<close> does not hold is a parameter of the model:
  the constants \<^verbatim>\<open>Constants.ROOT_GROUP_ID\<close>, \<^verbatim>\<open>Constants.ROOT_GROUP_NAME\<close> and
  \<^verbatim>\<open>LocalizedConstants.SampleServerName\<close>, the predicate \<^verbatim>\<open>Utils.isSameProfile\<close>,
  the built-in \<^verbatim>\<open>String.prototype.localeCompare\<close>, and \<^verbatim>\<open>Utils.generateGuid\<close>,
  whose \<open>n\<close>-th call returns \<open>generateGuid e n\<close>.
\<close>

record 'p env =
  ROOT_GROUP_ID :: string
  ROOT_GROUP_NAME :: string
  SampleServerName :: string
  isSameProfile :: "'p IConnectionProfile_scheme \<Rightarrow> 'p IConnectionProfile_scheme \<Rightarrow> bool"
  localeCompare :: "string \<Rightarrow> string \<Rightarrow> int"
  generateGuid :: "nat \<Rightarrow> string"

text \<open>
  The state the class works on: the three layers of each of the two settings arrays
  (an unset layer reads as the empty array, \<^verbatim>\<open>configValue.globalValue || []\<close>), the
  flag \<^verbatim>\<open>_hasDisplayedMissingIdError\<close>, the number of GUIDs generated so far, the
  calls of \<^verbatim>\<open>setConfiguration\<close> made so far, and the debug log. The backend hands out
  copies, so a record changes in the store only by a write. User notifications and the
  other log levels are not part of the state.
\<close>

record 'p config =
  globalConnections :: "'p IConnectionProfile_scheme list"
  workspaceConnections :: "'p IConnectionProfile_scheme list"
  workspaceFolderConnections :: "'p IConnectionProfile_scheme list"
  globalGroups :: "IConnectionGroup list"
  workspaceGroups :: "IConnectionGroup list"
  workspaceFolderGroups :: "IConnectionGroup list"
  hasDisplayedMissingIdError :: bool
  guidsGenerated :: nat
  writes :: "(settingsSection \<times> ConfigurationTarget) list"
  debugLog :: "'p logEvent list"

definition getConnectionsFromSettings ::
  "ConfigurationTarget \<Rightarrow> 'p config \<Rightarrow> 'p IConnectionProfile_scheme list" where
  "getConnectionsFromSettings configLocation s =
     (case configLocation of
        Global \<Rightarrow> globalConnections s
      | Workspace \<Rightarrow> workspaceConnections s @ workspaceFolderConnections s)"

definition getGroupsFromSettings ::
  "ConfigurationTarget \<Rightarrow> 'p config \<Rightarrow> IConnectionGroup list" where
  "getGroupsFromSettings configLocation s =
     (case configLocation of
        Global \<Rightarrow> globalGroups s
      | Workspace \<Rightarrow> workspaceGroups s @ workspaceFolderGroups s)"

text \<open>
  Modelled from the spec: \<^verbatim>\<open>VscodeWrapper.setConfiguration\<close> is not under
  \<^verbatim>\<open>src/\<close>. It replaces the section's contents at exactly the given scope and
  touches nothing else; for the workspace target that is the workspace layer.
\<close>

definition writeConnectionsToSettings ::
  "'p IConnectionProfile_scheme list \<Rightarrow> ConfigurationTarget \<Rightarrow> 'p config \<Rightarrow> 'p config" where
  "writeConnectionsToSettings profiles configTarget s =
     (case configTarget of
        Global \<Rightarrow> s\<lparr>globalConnections := profiles,
                     writes := writes s @ [(connectionsArrayName, Global)]\<rparr>
      | Workspace \<Rightarrow> s\<lparr>workspaceConnections := profiles,
                        writes := writes s @ [(connectionsArrayName, Workspace)]\<rparr>)"

definition writeConnectionGroupsToSettings ::
  "IConnectionGroup list \<Rightarrow> ConfigurationTarget \<Rightarrow> 'p config \<Rightarrow> 'p config" where
  "writeConnectionGroupsToSettings connGroups configTarget s =
     (case configTarget of
        Global \<Rightarrow> s\<lparr>globalGroups := connGroups,
                     writes := writes s @ [(connectionGroupsArrayName, Global)]\<rparr>
      | Workspace \<Rightarrow> s\<lparr>workspaceGroups := connGroups,
                        writes := writes s @ [(connectionGroupsArrayName, Workspace)]\<rparr>)"

section \<open>Initialization: the integrity pass\<close>

text \<open>
  Modelled from the spec: \<^verbatim>\<open>ConnectionProfile.addIdIfMissing\<close> is not under
  \<^verbatim>\<open>src/\<close>. It generates an id for a profile that has none.
\<close>

definition addIdIfMissing ::
  "'p env \<Rightarrow> 'p IConnectionProfile_scheme \<Rightarrow> nat \<Rightarrow> 'p IConnectionProfile_scheme \<times> nat" where
  "addIdIfMissing e profile n =
     (if profile_id profile = None
      then (profile\<lparr>profile_id := Some (generateGuid e n)\<rparr>, Suc n)
      else (profile, n))"

text \<open>\<^verbatim>\<open>populateMissingConnectionIds\<close> mutates its argument; the model returns the
  flag, the profile as it is afterwards and the GUID counter.\<close>

definition populateMissingConnectionIds ::
  "'p env \<Rightarrow> 'p IConnectionProfile_scheme \<Rightarrow> nat
     \<Rightarrow> bool \<times> 'p IConnectionProfile_scheme \<times> nat" where
  "populateMissingConnectionIds e profile n =
     (let (m1, p1) = (if groupId profile = None
                      then (True, profile\<lparr>groupId := Some (ROOT_GROUP_ID e)\<rparr>)
                      else (False, profile))
      in if profile_id p1 = None
         then (let (p2, n2) = addIdIfMissing e p1 n in (True, p2, n2))
         else (m1, p1, n))"

definition legacyRootIds :: "'p env \<Rightarrow> IConnectionGroup list \<Rightarrow> string option list" where
  "legacyRootIds e groups =
     map group_id
       (filter (\<lambda>g. group_name g = Some (ROOT_GROUP_NAME e)
                     \<and> group_id g \<noteq> Some (ROOT_GROUP_ID e)) groups)"

text \<open>The body of the loop over the groups: the group as it is afterwards, whether
  the body set \<^verbatim>\<open>madeChanges\<close>, the GUID counter and the lines logged.\<close>

definition repairGroup ::
  "'p env \<Rightarrow> string option list \<Rightarrow> string option set \<Rightarrow> IConnectionGroup \<Rightarrow> nat
     \<Rightarrow> IConnectionGroup \<times> bool \<times> nat \<times> 'p logEvent list" where
  "repairGroup e legacy validGroupIds grp n =
     (let (g1, c1, l1) =
            (if parentId grp \<in> set legacy
             then (grp\<lparr>parentId := Some (ROOT_GROUP_ID e)\<rparr>, True,
                   [MigratedGroup (grp\<lparr>parentId := Some (ROOT_GROUP_ID e)\<rparr>)])
             else (grp, False, []));
          (g2, c2, l2) =
            (if truthy (parentId g1) \<and> parentId g1 \<notin> validGroupIds
             then (g1\<lparr>parentId := Some (ROOT_GROUP_ID e)\<rparr>, True,
                   l1 @ [ReparentedOrphanedGroup (g1\<lparr>parentId := Some (ROOT_GROUP_ID e)\<rparr>)])
             else (g1, c1, l1));
          (g3, c3, l3, n3) =
            (if \<not> truthy (group_id g2)
             then (g2\<lparr>group_id := Some (generateGuid e n)\<rparr>, True,
                   l2 @ [AddingMissingGroupId (g2\<lparr>group_id := Some (generateGuid e n)\<rparr>)],
                   Suc n)
             else (g2, c2, l2, n));
          (g4, c4, l4) =
            (if \<not> truthy (parentId g3)
             then (g3\<lparr>parentId := Some (ROOT_GROUP_ID e)\<rparr>, True,
                   l3 @ [AddingMissingParentId (g3\<lparr>parentId := Some (ROOT_GROUP_ID e)\<rparr>)])
             else (g3, c3, l3))
      in (g4, c4, n3, l4))"

fun repairGroups ::
  "'p env \<Rightarrow> string option list \<Rightarrow> string option set \<Rightarrow> IConnectionGroup list \<Rightarrow> nat
     \<Rightarrow> IConnectionGroup list \<times> bool \<times> nat \<times> 'p logEvent list" where
  "repairGroups e legacy validGroupIds [] n = ([], False, n, [])"
| "repairGroups e legacy validGroupIds (grp # rest) n =
     (let (g', c, n', l) = repairGroup e legacy validGroupIds grp n;
          (rest', cs, n'', ls) = repairGroups e legacy validGroupIds rest n'
      in (g' # rest', c \<or> cs, n'', l @ ls))"

definition assignConnectionGroupMissingIds :: "'p env \<Rightarrow> 'p config \<Rightarrow> 'p config" where
  "assignConnectionGroupMissingIds e s =
     (let groups = filter (\<lambda>g. group_id g \<noteq> Some (ROOT_GROUP_ID e))
                     (getGroupsFromSettings Global s);
          legacy = legacyRootIds e (getGroupsFromSettings Global s);
          allGroups = filter (\<lambda>g. group_id g \<noteq> Some (ROOT_GROUP_ID e))
                        (getGroupsFromSettings Global s);
          validGroupIds = insert (Some (ROOT_GROUP_ID e)) (set (map group_id allGroups));
          (groups', madeChanges, n', l) =
            repairGroups e legacy validGroupIds groups (guidsGenerated s);
          s1 = s\<lparr>guidsGenerated := n', debugLog := debugLog s @ l\<rparr>
      in if madeChanges
         then writeConnectionGroupsToSettings groups' Global
                (s1\<lparr>debugLog := debugLog s1 @ [WritingGroups (length groups')]\<rparr>)
         else s1)"

text \<open>The body of the loop over the profiles.\<close>

definition repairProfile ::
  "'p env \<Rightarrow> string option list \<Rightarrow> string option set \<Rightarrow> 'p IConnectionProfile_scheme \<Rightarrow> nat
     \<Rightarrow> 'p IConnectionProfile_scheme \<times> bool \<times> nat \<times> 'p logEvent list" where
  "repairProfile e legacy validGroupIds profile n =
     (let (p1, c1, l1) =
            (if groupId profile \<in> set legacy
             then (profile\<lparr>groupId := Some (ROOT_GROUP_ID e)\<rparr>, True,
                   [MigratedConnection (profile\<lparr>groupId := Some (ROOT_GROUP_ID e)\<rparr>)])
             else (profile, False, []));
          (p2, c2, l2) =
            (if truthy (groupId p1) \<and> groupId p1 \<notin> validGroupIds
             then (p1\<lparr>groupId := Some (ROOT_GROUP_ID e)\<rparr>, True,
                   l1 @ [ReparentedOrphanedConnection
                           (p1\<lparr>groupId := Some (ROOT_GROUP_ID e)\<rparr>)])
             else (p1, c1, l1));
          (m, p3, n3) = populateMissingConnectionIds e p2 n
      in if m then (p3, True, n3, l2 @ [AddingMissingConnectionIds p3])
         else (p3, c2, n3, l2))"

fun repairProfiles ::
  "'p env \<Rightarrow> string option list \<Rightarrow> string option set \<Rightarrow> 'p IConnectionProfile_scheme list
     \<Rightarrow> nat \<Rightarrow> 'p IConnectionProfile_scheme list \<times> bool \<times> nat \<times> 'p logEvent list" where
  "repairProfiles e legacy validGroupIds [] n = ([], False, n, [])"
| "repairProfiles e legacy validGroupIds (profile # rest) n =
     (let (p', c, n', l) = repairProfile e legacy validGroupIds profile n;
          (rest', cs, n'', ls) = repairProfiles e legacy validGroupIds rest n'
      in (p' # rest', c \<or> cs, n'', l @ ls))"

definition assignConnectionMissingIds :: "'p env \<Rightarrow> 'p config \<Rightarrow> 'p config" where
  "assignConnectionMissingIds e s =
     (let profiles = getConnectionsFromSettings Global s;
          legacy = legacyRootIds e (getGroupsFromSettings Global s);
          validGroupIds = insert (Some (ROOT_GROUP_ID e)) (set (map groupId profiles));
          (profiles', madeChanges, n', l) =
            repairProfiles e legacy validGroupIds profiles (guidsGenerated s);
          s1 = s\<lparr>guidsGenerated := n', debugLog := debugLog s @ l\<rparr>
      in if madeChanges
         then writeConnectionsToSettings profiles' Global
                (s1\<lparr>debugLog := debugLog s1 @ [WritingConnections (length profiles')]\<rparr>)
         else s1)"

definition initialize :: "'p env \<Rightarrow> 'p config \<Rightarrow> 'p config" where
  "initialize e s = assignConnectionMissingIds e (assignConnectionGroupMissingIds e s)"

section \<open>Connection profiles\<close>

text \<open>
  \<^verbatim>\<open>compareConnectionProfile\<close>. \<^verbatim>\<open>nameA.localeCompare(nameB)\<close> raises a TypeError
  when \<^verbatim>\<open>nameA\<close> is undefined, and converts an undefined \<^verbatim>\<open>nameB\<close> to the string
  \<^verbatim>\<open>"undefined"\<close>.
\<close>

definition displayKey :: "'p IConnectionProfile_scheme \<Rightarrow> string option" where
  "displayKey conn =
     (if truthy (profileName conn) then profileName conn
      else if truthy (server conn) then server conn
      else connectionString conn)"

definition compareConnectionProfile ::
  "'p env \<Rightarrow> 'p IConnectionProfile_scheme \<Rightarrow> 'p IConnectionProfile_scheme \<Rightarrow> error + int" where
  "compareConnectionProfile e connA connB =
     (case displayKey connA of
        None \<Rightarrow> Inl TypeError
      | Some nameA \<Rightarrow>
          Inr (localeCompare e nameA
                 (case displayKey connB of None \<Rightarrow> ''undefined'' | Some nameB \<Rightarrow> nameB)))"

text \<open>
  \<^verbatim>\<open>Array.prototype.sort\<close> with a comparison function. ECMAScript fixes the result
  for a consistent comparison function (the stable sorted permutation) and leaves the
  sequence of calls to the engine. The model is the stable insertion sort that hands
  the element being inserted to the comparison function as its first argument; an
  exception raised by the comparison function ends the sort.
\<close>

fun insertSorted :: "('a \<Rightarrow> 'a \<Rightarrow> error + int) \<Rightarrow> 'a \<Rightarrow> 'a list \<Rightarrow> error + 'a list" where
  "insertSorted comparefn x [] = Inr [x]"
| "insertSorted comparefn x (y # ys) =
     (case comparefn x y of
        Inl err \<Rightarrow> Inl err
      | Inr c \<Rightarrow>
          if c < 0 then Inr (x # y # ys)
          else (case insertSorted comparefn x ys of
                  Inl err \<Rightarrow> Inl err
                | Inr zs \<Rightarrow> Inr (y # zs)))"

fun sortInto :: "('a \<Rightarrow> 'a \<Rightarrow> error + int) \<Rightarrow> 'a list \<Rightarrow> 'a list \<Rightarrow> error + 'a list" where
  "sortInto comparefn sorted_prefix [] = Inr sorted_prefix"
| "sortInto comparefn sorted_prefix (x # xs) =
     (case insertSorted comparefn x sorted_prefix of
        Inl err \<Rightarrow> Inl err
      | Inr sorted_prefix' \<Rightarrow> sortInto comparefn sorted_prefix' xs)"

definition array_sort :: "('a \<Rightarrow> 'a \<Rightarrow> error + int) \<Rightarrow> 'a list \<Rightarrow> error + 'a list" where
  "array_sort comparefn xs = sortInto comparefn [] xs"

definition getRootGroup :: "'p env \<Rightarrow> IConnectionGroup" where
  "getRootGroup e =
     \<lparr>group_id = Some (ROOT_GROUP_ID e), group_name = Some (ROOT_GROUP_NAME e),
      parentId = None\<rparr>"

definition getGroups :: "'p env \<Rightarrow> ConfigurationTarget \<Rightarrow> 'p config \<Rightarrow> IConnectionGroup list" where
  "getGroups e location s =
     getRootGroup e #
       filter (\<lambda>g. group_id g \<noteq> Some (ROOT_GROUP_ID e)) (getGroupsFromSettings location s)"

definition hasConnectionInformation :: "'p env \<Rightarrow> 'p IConnectionProfile_scheme \<Rightarrow> bool" where
  "hasConnectionInformation e conn =
     (truthy (connectionString conn)
      \<or> (truthy (server conn) \<and> server conn \<noteq> Some (SampleServerName e)))"

text \<open>The two filters at the end of \<^verbatim>\<open>getConnections\<close>.\<close>

definition filterListed ::
  "'p env \<Rightarrow> 'p config \<Rightarrow> 'p IConnectionProfile_scheme list \<Rightarrow> 'p IConnectionProfile_scheme list" where
  "filterListed e s profiles =
     (let profiles1 = (if length profiles > 0
                       then filter (hasConnectionInformation e) profiles
                       else profiles);
          groupIds = set (map group_id (getGroups e Global s))
      in filter (\<lambda>p. groupId p \<in> groupIds) profiles1)"

text \<open>
  \<^verbatim>\<open>getConnections\<close>, once \<^verbatim>\<open>initialized\<close> has resolved. The result is the list or
  the exception, together with the state (the flag may have been set).
\<close>

definition getConnections ::
  "'p env \<Rightarrow> bool \<Rightarrow> 'p config
     \<Rightarrow> (error + 'p IConnectionProfile_scheme list) \<times> 'p config" where
  "getConnections e alsoGetFromWorkspace s =
     (case array_sort (compareConnectionProfile e) (getConnectionsFromSettings Global s) of
        Inl err \<Rightarrow> (Inl err, s)
      | Inr userProfiles \<Rightarrow>
          if alsoGetFromWorkspace
          then (let workspaceProfiles = getConnectionsFromSettings Workspace s;
                    missingIdConns =
                      (if hasDisplayedMissingIdError s then []
                       else filter (\<lambda>profile. \<not> truthy (profile_id profile)) workspaceProfiles);
                    workspaceProfiles1 =
                      filter (\<lambda>profile. truthy (profile_id profile)) workspaceProfiles;
                    s1 = (if length missingIdConns > 0
                          then s\<lparr>hasDisplayedMissingIdError := True\<rparr> else s)
                in case array_sort (compareConnectionProfile e) workspaceProfiles1 of
                     Inl err \<Rightarrow> (Inl err, s1)
                   | Inr workspaceProfiles2 \<Rightarrow>
                       (Inr (filterListed e s1 (userProfiles @ workspaceProfiles2)), s1))
          else (Inr (filterListed e s userProfiles), s))"

definition getConnectionById ::
  "'p env \<Rightarrow> string option \<Rightarrow> 'p config
     \<Rightarrow> (error + 'p IConnectionProfile_scheme option) \<times> 'p config" where
  "getConnectionById e ident s =
     (case getConnections e True s of
        (Inl err, s1) \<Rightarrow> (Inl err, s1)
      | (Inr profiles, s1) \<Rightarrow> (Inr (find (\<lambda>profile. profile_id profile = ident) profiles), s1))"

text \<open>\<^verbatim>\<open>addConnection\<close> mutates its argument (the back-fill); the model returns the
  profile as it is afterwards with the state.\<close>

definition addConnection ::
  "'p env \<Rightarrow> 'p IConnectionProfile_scheme \<Rightarrow> ConfigurationTarget \<Rightarrow> 'p config
     \<Rightarrow> 'p IConnectionProfile_scheme \<times> 'p config" where
  "addConnection e profile configTarget s =
     (let (m, profile1, n1) = populateMissingConnectionIds e profile (guidsGenerated s);
          s1 = s\<lparr>guidsGenerated := n1\<rparr>;
          profiles = getConnectionsFromSettings configTarget s1;
          profiles1 = filter (\<lambda>v. \<not> isSameProfile e v profile1) profiles;
          profiles2 = profiles1 @ [profile1]
      in (profile1, writeConnectionsToSettings profiles2 configTarget s1))"

text \<open>\<^verbatim>\<open>removeConnectionHelper\<close> walks the array from its last index down and
  splices the matches out: the tail is handled before the head.\<close>

fun removeConnectionHelper ::
  "'p env \<Rightarrow> 'p IConnectionProfile_scheme \<Rightarrow> 'p IConnectionProfile_scheme list
     \<Rightarrow> bool \<times> 'p IConnectionProfile_scheme list" where
  "removeConnectionHelper e toRemove [] = (False, [])"
| "removeConnectionHelper e toRemove (p # profiles) =
     (let (found, profiles1) = removeConnectionHelper e toRemove profiles
      in if isSameProfile e p toRemove then (True, profiles1) else (found, p # profiles1))"

definition removeConnection ::
  "'p env \<Rightarrow> 'p IConnectionProfile_scheme \<Rightarrow> 'p config \<Rightarrow> (error + bool) \<times> 'p config" where
  "removeConnection e profile s =
     (case getConnections e False s of
        (Inl err, s1) \<Rightarrow> (Inl err, s1)
      | (Inr profiles, s1) \<Rightarrow>
          (let (found, profiles1) = removeConnectionHelper e profile profiles
           in if found then (Inr True, writeConnectionsToSettings profiles1 Global s1)
              else (Inr False, s1)))"

fun findIndex :: "('a \<Rightarrow> bool) \<Rightarrow> 'a list \<Rightarrow> nat option" where
  "findIndex P [] = None"
| "findIndex P (x # xs) =
     (if P x then Some 0 else map_option Suc (findIndex P xs))"

definition updateConnection ::
  "'p env \<Rightarrow> 'p IConnectionProfile_scheme \<Rightarrow> 'p config \<Rightarrow> (error + unit) \<times> 'p config" where
  "updateConnection e updatedProfile s =
     (case getConnections e False s of
        (Inl err, s1) \<Rightarrow> (Inl err, s1)
      | (Inr profiles, s1) \<Rightarrow>
          (case findIndex (\<lambda>p. profile_id p = profile_id updatedProfile) profiles of
             None \<Rightarrow> (Inl (ConnectionNotFound (profile_id updatedProfile)), s1)
           | Some index \<Rightarrow>
               (Inr (), writeConnectionsToSettings (profiles[index := updatedProfile]) Global s1)))"

section \<open>Connection groups\<close>

definition getGroupById :: "'p env \<Rightarrow> string \<Rightarrow> 'p config \<Rightarrow> IConnectionGroup option" where
  "getGroupById e ident s =
     (if ident = ROOT_GROUP_ID e then Some (getRootGroup e)
      else find (\<lambda>g. group_id g = Some ident) (getGroupsFromSettings Global s))"

definition addGroup ::
  "'p env \<Rightarrow> IConnectionGroup \<Rightarrow> ConfigurationTarget \<Rightarrow> 'p config \<Rightarrow> (error + unit) \<times> 'p config" where
  "addGroup e grp configTarget s =
     (if group_id grp = Some (ROOT_GROUP_ID e) then (Inr (), s)
      else
        (let (g1, n1) = (if \<not> truthy (group_id grp)
                         then (grp\<lparr>group_id := Some (generateGuid e (guidsGenerated s))\<rparr>,
                               Suc (guidsGenerated s))
                         else (grp, guidsGenerated s));
             g2 = (if \<not> truthy (parentId g1)
                   then g1\<lparr>parentId := Some (ROOT_GROUP_ID e)\<rparr> else g1);
             s1 = s\<lparr>guidsGenerated := n1\<rparr>;
             groups = filter (\<lambda>g. group_id g \<noteq> Some (ROOT_GROUP_ID e))
                        (getGroupsFromSettings configTarget s1)
         in (Inr (), writeConnectionGroupsToSettings (groups @ [g2]) configTarget s1)))"

text \<open>
  \<^verbatim>\<open>getAllSubgroupIds\<close>, the closure inside \<^verbatim>\<open>removeGroup\<close>. \<open>collectChildren\<close> is
  its loop over \<^verbatim>\<open>groups\<close>, with the recursive call as a parameter. The recursion has no
  guard against a cycle of parents, so the function is partial: \<open>None\<close> is a call that
  does not return (in JavaScript the unbounded recursion ends in a stack overflow).
\<close>

fun collectChildren ::
  "(string option \<Rightarrow> string option set option) \<Rightarrow> string option \<Rightarrow> IConnectionGroup list
     \<Rightarrow> string option set \<Rightarrow> string option set option" where
  "collectChildren recurse groupIdent [] subgroupIds = Some subgroupIds"
| "collectChildren recurse groupIdent (grp # rest) subgroupIds =
     (if parentId grp = groupIdent
      then Option.bind (recurse (group_id grp))
             (\<lambda>childSubgroups.
                collectChildren recurse groupIdent rest (subgroupIds \<union> childSubgroups))
      else collectChildren recurse groupIdent rest subgroupIds)"

lemma collectChildren_mono [partial_function_mono]:
  assumes "\<And>y. mono_option (\<lambda>f. B f y)"
  shows "mono_option (\<lambda>f. collectChildren (B f) groupIdent groups subgroupIds)"
  by (induction groups arbitrary: subgroupIds)
     (auto intro!: partial_function_mono assms)

partial_function (option) getAllSubgroupIds ::
  "IConnectionGroup list \<Rightarrow> string option \<Rightarrow> string option set option" where
  "getAllSubgroupIds groups groupIdent =
     collectChildren (getAllSubgroupIds groups) groupIdent groups {groupIdent}"

text \<open>An object literal is truthy, so the test \<^verbatim>\<open>!rootGroup\<close> never succeeds.\<close>

definition object_truthy :: "IConnectionGroup \<Rightarrow> bool" where
  "object_truthy obj = True"

text \<open>The end of \<^verbatim>\<open>removeGroup\<close>, from the comparison of the lengths on.\<close>

definition finishRemoveGroup ::
  "IConnectionGroup list \<Rightarrow> bool \<Rightarrow> 'p IConnectionProfile_scheme list \<Rightarrow> IConnectionGroup list
     \<Rightarrow> 'p config \<Rightarrow> (error + bool) \<times> 'p config" where
  "finishRemoveGroup groups connectionModified remainingConnections remainingGroups s =
     (if length remainingGroups = length groups then (Inr False, s)
      else
        (let s1 = (if connectionModified
                   then writeConnectionsToSettings remainingConnections Global s else s)
         in (Inr True, writeConnectionGroupsToSettings remainingGroups Global s1)))"

definition removeGroup ::
  "'p env \<Rightarrow> string \<Rightarrow> contentAction \<Rightarrow> 'p config \<Rightarrow> ((error + bool) \<times> 'p config) option" where
  "removeGroup e ident action s =
     (let connections = getConnectionsFromSettings Global s;
          groups = getGroupsFromSettings Global s;
          rootGroup = getRootGroup e
      in if \<not> object_truthy rootGroup then Some (Inl RootGroupNotFound, s)
         else if ident = ROOT_GROUP_ID e then Some (Inr False, s)
         else
           (case action of
              Delete \<Rightarrow>
                Option.bind (getAllSubgroupIds groups (Some ident))
                  (\<lambda>groupsToRemove.
                     let remainingConnections =
                           filter (\<lambda>conn. groupId conn \<notin> groupsToRemove) connections;
                         connectionModified =
                           (\<exists>conn \<in> set connections. groupId conn \<in> groupsToRemove);
                         remainingGroups =
                           filter (\<lambda>g. group_id g \<notin> groupsToRemove
                                         \<and> group_id g \<noteq> Some (ROOT_GROUP_ID e)) groups
                     in Some (finishRemoveGroup groups connectionModified
                                remainingConnections remainingGroups s))
            | Move \<Rightarrow>
                (let remainingConnections =
                       map (\<lambda>conn. if groupId conn = Some ident
                                    then conn\<lparr>groupId := group_id rootGroup\<rparr> else conn)
                         connections;
                     connectionModified =
                       (\<exists>conn \<in> set connections. groupId conn = Some ident);
                     remainingGroups1 =
                       filter (\<lambda>g. group_id g \<noteq> Some ident
                                     \<and> group_id g \<noteq> Some (ROOT_GROUP_ID e)) groups;
                     remainingGroups =
                       map (\<lambda>g. if parentId g = Some ident
                                 then g\<lparr>parentId := group_id rootGroup\<rparr> else g)
                         remainingGroups1
                 in Some (finishRemoveGroup groups connectionModified
                            remainingConnections remainingGroups s))))"

definition updateGroup ::
  "'p env \<Rightarrow> IConnectionGroup \<Rightarrow> 'p config \<Rightarrow> (error + unit) \<times> 'p config" where
  "updateGroup e updatedGroup s =
     (if group_id updatedGroup = Some (ROOT_GROUP_ID e) then (Inr (), s)
      else
        (let groups = filter (\<lambda>g. group_id g \<noteq> Some (ROOT_GROUP_ID e))
                        (getGroupsFromSettings Global s)
         in case findIndex (\<lambda>g. group_id g = group_id updatedGroup) groups of
              None \<Rightarrow> (Inl (GroupNotFound (group_id updatedGroup)), s)
            | Some index \<Rightarrow>
                (Inr (), writeConnectionGroupsToSettings (groups[index := updatedGroup])
                           Global s)))"

section \<open>Notions the properties are stated with\<close>

text \<open>A comparison function is consistent when it orders the strings totally:
  \<open>cmp a b \<le> 0\<close> is transitive, and of two strings one comes first.\<close>

definition consistentComparator :: "(string \<Rightarrow> string \<Rightarrow> int) \<Rightarrow> bool" where
  "consistentComparator cmp =
     ((\<forall>a b c. cmp a b \<le> 0 \<and> cmp b c \<le> 0 \<longrightarrow> cmp a c \<le> 0)
      \<and> (\<forall>a b. 0 \<le> cmp a b \<longrightarrow> cmp b a \<le> 0))"

text \<open>The list is in the order of the display keys: every earlier profile has a key,
  and it compares at most equal to the key of every later one.\<close>

definition sortedByDisplayKey :: "'p env \<Rightarrow> 'p IConnectionProfile_scheme list \<Rightarrow> bool" where
  "sortedByDisplayKey e profiles =
     sorted_wrt (\<lambda>a b. case (displayKey a, displayKey b) of
                          (Some nameA, Some nameB) \<Rightarrow> localeCompare e nameA nameB \<le> 0
                        | _ \<Rightarrow> False) profiles"



text \<open>Generated GUIDs are non-empty and are not yet used as a parent reference by a
  stored group.\<close>

definition freshGuids :: "'p env \<Rightarrow> 'p config \<Rightarrow> bool" where
  "freshGuids e s =
     (\<forall>k. generateGuid e k \<noteq> []
           \<and> Some (generateGuid e k) \<notin> parentId ` set (globalGroups s))"

text \<open>What the two loops of the integrity pass leave alone: a group whose parent
  reference is non-empty, valid and not a legacy root id and whose id is non-empty; a
  profile whose group reference is present and not a legacy root id and whose id is
  present. \<open>groupsClean\<close> says the first of every stored group that does not carry the
  ROOT id, against the legacy ids and valid ids of that very list. \<open>groupRepaired\<close>
  relates a group to what the loop body makes of it.\<close>

definition groupClean ::
  "string option list \<Rightarrow> string option set \<Rightarrow> IConnectionGroup \<Rightarrow> bool" where
  "groupClean legacy validGroupIds g =
     (parentId g \<notin> set legacy \<and> truthy (parentId g) \<and> parentId g \<in> validGroupIds
      \<and> truthy (group_id g))"

definition groupRepaired ::
  "'p env \<Rightarrow> string option list \<Rightarrow> string option set \<Rightarrow> IConnectionGroup
     \<Rightarrow> IConnectionGroup \<Rightarrow> bool" where
  "groupRepaired e legacy validGroupIds g g' =
     (group_name g' = group_name g
      \<and> (if truthy (group_id g) then group_id g' = group_id g
         else \<exists>k. group_id g' = Some (generateGuid e k))
      \<and> (parentId g' = Some (ROOT_GROUP_ID e)
         \<or> (parentId g' = parentId g \<and> parentId g \<notin> set legacy \<and> truthy (parentId g)
            \<and> parentId g \<in> validGroupIds)))"

definition groupsClean :: "'p env \<Rightarrow> IConnectionGroup list \<Rightarrow> bool" where
  "groupsClean e groups =
     (\<forall>g\<in>set groups. group_id g \<noteq> Some (ROOT_GROUP_ID e) \<longrightarrow>
        groupClean (legacyRootIds e groups)
          (insert (Some (ROOT_GROUP_ID e))
             (group_id ` {h \<in> set groups. group_id h \<noteq> Some (ROOT_GROUP_ID e)})) g)"

definition profileClean :: "string option list \<Rightarrow> 'p IConnectionProfile_scheme \<Rightarrow> bool" where
  "profileClean legacy p =
     (groupId p \<notin> set legacy \<and> groupId p \<noteq> None \<and> profile_id p \<noteq> None)"

text \<open>The group reference of a profile after the legacy-root migration and the
  back-fill of a missing field, and nothing else.\<close>

definition migratedGroupId :: "'p env \<Rightarrow> string option list \<Rightarrow> string option \<Rightarrow> string option" where
  "migratedGroupId e legacy gid =
     (if gid \<in> set legacy \<or> gid = None then Some (ROOT_GROUP_ID e) else gid)"

text \<open>The order the sort works with: the display key, with \<^verbatim>\<open>"undefined"\<close> for a
  profile that has none. \<open>listable\<close> is the conjunction of the two filters at the end of
  \<^verbatim>\<open>getConnections\<close>.\<close>

definition keyOrUndefined :: "'p IConnectionProfile_scheme \<Rightarrow> string" where
  "keyOrUndefined conn = (case displayKey conn of None \<Rightarrow> ''undefined'' | Some k \<Rightarrow> k)"

definition keyOrder ::
  "'p env \<Rightarrow> 'p IConnectionProfile_scheme \<Rightarrow> 'p IConnectionProfile_scheme \<Rightarrow> bool" where
  "keyOrder e a b = (localeCompare e (keyOrUndefined a) (keyOrUndefined b) \<le> 0)"

definition listable :: "'p env \<Rightarrow> 'p config \<Rightarrow> 'p IConnectionProfile_scheme \<Rightarrow> bool" where
  "listable e s p =
     (hasConnectionInformation e p \<and> groupId p \<in> set (map group_id (getGroups e Global s)))"

section \<open>An instance of the parameters\<close>

text \<open>Concrete parameters, to run the model on concrete stores: the comparison of
  strings by their character codes stands for \<^verbatim>\<open>localeCompare\<close>, two profiles are
  the same when they name the same server and connection string, and the \<open>n\<close>-th GUID
  is \<open>#\<close> followed by \<open>n\<close> zeros.\<close>

fun compareCodes :: "nat list \<Rightarrow> nat list \<Rightarrow> int" where
  "compareCodes [] [] = 0"
| "compareCodes [] (y # ys) = - 1"
| "compareCodes (x # xs) [] = 1"
| "compareCodes (x # xs) (y # ys) =
     (if x < y then - 1 else if y < x then 1 else compareCodes xs ys)"

definition codeUnitCompare :: "string \<Rightarrow> string \<Rightarrow> int" where
  "codeUnitCompare a b = compareCodes (map of_char a) (map of_char b)"

definition exampleEnv :: "unit env" where
  "exampleEnv =
     \<lparr>ROOT_GROUP_ID = ''ROOT-ID'', ROOT_GROUP_NAME = ''ROOT'',
      SampleServerName = ''{{put-server-name-here}}'',
      isSameProfile = (\<lambda>a b. server a = server b \<and> connectionString a = connectionString b),
      localeCompare = codeUnitCompare,
      generateGuid = (\<lambda>n. CHR ''#'' # replicate n CHR ''0'')\<rparr>"

definition emptyStore :: "unit config" where
  "emptyStore =
     \<lparr>globalConnections = [], workspaceConnections = [], workspaceFolderConnections = [],
      globalGroups = [], workspaceGroups = [], workspaceFolderGroups = [],
      hasDisplayedMissingIdError = False, guidsGenerated = 0, writes = [], debugLog = []\<rparr>"

definition mkGroup :: "string \<Rightarrow> string \<Rightarrow> string \<Rightarrow> IConnectionGroup" where
  "mkGroup ident nm parent =
     \<lparr>group_id = Some ident, group_name = Some nm, parentId = Some parent\<rparr>"

definition mkProfile :: "string \<Rightarrow> string \<Rightarrow> string \<Rightarrow> IConnectionProfile" where
  "mkProfile ident grp srv =
     \<lparr>profile_id = Some ident, groupId = Some grp, profileName = None,
      server = Some srv, connectionString = None\<rparr>"

text \<open>Stores to run the model on: the tree \<open>ROOT \<rightarrow> A \<rightarrow> B\<close> with a sibling \<open>C\<close> and
  one connection in each group; a store where a child of \<open>A\<close> has no id and a group and
  a connection have no parent; a store where a workspace connection is in the global group
  \<open>A\<close>; and a global array whose second profile has no profile name, server or
  connection string.\<close>

definition treeStore :: "unit config" where
  "treeStore =
     emptyStore\<lparr>globalGroups :=
                  [mkGroup ''A'' ''a'' ''ROOT-ID'', mkGroup ''B'' ''b'' ''A'',
                   mkGroup ''C'' ''c'' ''ROOT-ID''],
                globalConnections :=
                  [mkProfile ''c1'' ''A'' ''one'', mkProfile ''c2'' ''B'' ''two'',
                   mkProfile ''c3'' ''C'' ''three'']\<rparr>"


definition workspaceMemberStore :: "unit config" where
  "workspaceMemberStore =
     emptyStore\<lparr>globalGroups := [mkGroup ''A'' ''a'' ''ROOT-ID''],
                workspaceConnections := [mkProfile ''w1'' ''A'' ''ws'']\<rparr>"


text \<open>A global array that is not in the order of the display keys and holds a profile
  whose group does not exist; a store with a legacy root group, an orphaned group, a group
  without an id and profiles that refer to them; a store with profiles in all three
  layers; and a profile that has neither an id nor a group.\<close>

definition unsortedStore :: "unit config" where
  "unsortedStore =
     emptyStore\<lparr>globalConnections :=
       [mkProfile ''2'' ''ROOT-ID'' ''zeta'', mkProfile ''3'' ''gone'' ''mid'',
        mkProfile ''1'' ''ROOT-ID'' ''alpha'']\<rparr>"

definition legacyStore :: "unit config" where
  "legacyStore =
     emptyStore\<lparr>globalGroups :=
                  [\<lparr>group_id = Some ''old-root'', group_name = Some ''ROOT'', parentId = None\<rparr>,
                   mkGroup ''G1'' ''g1'' ''old-root'', mkGroup ''G2'' ''g2'' ''nowhere'',
                   \<lparr>group_id = None, group_name = Some ''g3'', parentId = Some ''G1''\<rparr>],
                globalConnections :=
                  [mkProfile ''c1'' ''old-root'' ''one'',
                   \<lparr>profile_id = None, groupId = None, profileName = None,
                    server = Some ''two'', connectionString = None\<rparr>,
                   mkProfile ''c3'' ''nowhere'' ''three'']\<rparr>"

definition scopedStore :: "unit config" where
  "scopedStore =
     emptyStore\<lparr>globalConnections :=
                  [mkProfile ''1'' ''ROOT-ID'' ''zeta'', mkProfile ''2'' ''ROOT-ID'' ''alpha''],
                workspaceConnections := [mkProfile ''3'' ''ROOT-ID'' ''mid''],
                workspaceFolderConnections := [mkProfile ''4'' ''ROOT-ID'' ''beta'']\<rparr>"

definition newProfile :: IConnectionProfile where
  "newProfile = \<lparr>profile_id = None, groupId = None, profileName = Some ''fresh'',
                  server = Some ''new'', connectionString = None\<rparr>"

section \<open>Evaluation and basic facts\<close>

lemmas model_defs =
  truthy_def getConnectionsFromSettings_def getGroupsFromSettings_def
  writeConnectionsToSettings_def writeConnectionGroupsToSettings_def
  displayKey_def compareConnectionProfile_def array_sort_def getRootGroup_def getGroups_def
  hasConnectionInformation_def filterListed_def getConnections_def

lemmas example_defs =
  exampleEnv_def emptyStore_def mkGroup_def mkProfile_def codeUnitCompare_def

lemma object_truthy_holds [simp]: "object_truthy obj"
  by (simp add: object_truthy_def)

lemma findIndex_None: "findIndex P xs = None \<longleftrightarrow> (\<forall>x\<in>set xs. \<not> P x)"
  by (induction xs) auto

lemma findIndex_Some: "findIndex P xs = Some i \<Longrightarrow> i < length xs \<and> P (xs ! i)"
  by (induction xs arbitrary: i) (auto split: if_splits)

lemma getConnections_False_state: "snd (getConnections e False s) = s"
  by (simp add: getConnections_def split: sum.splits)

lemma getConnections_False_result:
  assumes "fst (getConnections e False s) = Inr listed"
  shows "getConnections e False s = (Inr listed, s)"
  using assms getConnections_False_state [of e s]
  by (cases "getConnections e False s") simp

lemma removeConnectionHelper_filter:
  "removeConnectionHelper e toRemove profiles
     = (\<exists>p\<in>set profiles. isSameProfile e p toRemove,
        filter (\<lambda>p. \<not> isSameProfile e p toRemove) profiles)"
  by (induction profiles) (auto split: prod.splits)

lemma codeUnitCompare_consistent: "consistentComparator (localeCompare exampleEnv)"
proof -
  have anti: "\<And>a b. 0 \<le> compareCodes a b \<Longrightarrow> compareCodes b a \<le> 0"
  proof -
    fix a b
    show "0 \<le> compareCodes a b \<Longrightarrow> compareCodes b a \<le> 0"
      by (induction a b rule: compareCodes.induct) (simp_all split: if_splits)
  qed
  have trans: "\<And>a b c. compareCodes a b \<le> 0 \<Longrightarrow> compareCodes b c \<le> 0
                 \<Longrightarrow> compareCodes a c \<le> 0"
  proof -
    fix a b c
    show "compareCodes a b \<le> 0 \<Longrightarrow> compareCodes b c \<le> 0 \<Longrightarrow> compareCodes a c \<le> 0"
    proof (induction a b arbitrary: c rule: compareCodes.induct)
      case 1
      then show ?case by simp
    next
      case (2 y ys)
      then show ?case by (cases c) (simp_all split: if_splits)
    next
      case (3 x xs)
      then show ?case by simp
    next
      case (4 x xs y ys)
      show ?case
      proof (cases c)
        case Nil
        with "4.prems"(2) show ?thesis by simp
      next
        case (Cons z zs)
        from "4.prems"(1) have xy: "x \<le> y" by (simp split: if_splits)
        from "4.prems"(2) Cons have yz: "y \<le> z" by (simp split: if_splits)
        show ?thesis
        proof (cases "x < z")
          case True
          then show ?thesis using Cons by simp
        next
          case False
          with xy yz have eq: "x = y" "y = z" by simp_all
          from "4.prems"(1) eq have a: "compareCodes xs ys \<le> 0" by simp
          from "4.prems"(2) Cons eq have b: "compareCodes ys zs \<le> 0" by simp
          from a b eq have "compareCodes xs zs \<le> 0" using "4.IH" [of zs] by simp
          then show ?thesis using Cons eq by simp
        qed
      qed
    qed
  qed
  show ?thesis
    unfolding consistentComparator_def exampleEnv_def codeUnitCompare_def
    using anti trans by simp blast
qed

section \<open>The reserved ROOT id\<close>

text \<open>
  C4. An operation on the reserved ROOT id is absorbed and raises nothing:
  \<^verbatim>\<open>removeGroup\<close> of the ROOT id returns false for either content action, and
  \<^verbatim>\<open>addGroup\<close> and \<^verbatim>\<open>updateGroup\<close> of a group that carries the ROOT id
  return normally; each leaves the state as it was, so nothing is written.
\<close>

theorem root_id_operations_absorbed:
  "removeGroup e (ROOT_GROUP_ID e) action s = Some (Inr False, s)
   \<and> addGroup e (grp\<lparr>group_id := Some (ROOT_GROUP_ID e)\<rparr>) configTarget s = (Inr (), s)
   \<and> updateGroup e (grp\<lparr>group_id := Some (ROOT_GROUP_ID e)\<rparr>) s = (Inr (), s)"
  by (simp add: removeGroup_def addGroup_def updateGroup_def)

theorem root_id_operations_absorbed_witness:
  "removeGroup exampleEnv ''ROOT-ID'' Move
       (emptyStore\<lparr>globalGroups := [mkGroup ''A'' ''a'' ''ROOT-ID'']\<rparr>)
     = Some (Inr False, emptyStore\<lparr>globalGroups := [mkGroup ''A'' ''a'' ''ROOT-ID'']\<rparr>)
   \<and> addGroup exampleEnv \<lparr>group_id = Some ''ROOT-ID'', group_name = Some ''r'', parentId = None\<rparr>
       Global emptyStore = (Inr (), emptyStore)
   \<and> updateGroup exampleEnv \<lparr>group_id = Some ''ROOT-ID'', group_name = Some ''r'', parentId = None\<rparr>
       emptyStore = (Inr (), emptyStore)"
  using root_id_operations_absorbed
          [of exampleEnv Move "emptyStore\<lparr>globalGroups := [mkGroup ''A'' ''a'' ''ROOT-ID'']\<rparr>"
              "\<lparr>group_id = Some ''ROOT-ID'', group_name = Some ''r'', parentId = None\<rparr>"
              Global]
        root_id_operations_absorbed
          [of exampleEnv Move emptyStore
              "\<lparr>group_id = Some ''ROOT-ID'', group_name = Some ''r'', parentId = None\<rparr>"
              Global]
  by (simp add: exampleEnv_def)

section \<open>Updating and removing a connection\<close>




text \<open>
  C10. \<^verbatim>\<open>removeConnection\<close> and \<^verbatim>\<open>updateConnection\<close> work on the list that
  \<^verbatim>\<open>getConnections(false)\<close> returns, which is the sorted global array without the
  profiles that lack connection information and without those whose group does not exist,
  and what they write back is made from that list: the stored global profiles that the
  listing left out are gone after the write, and the stored order is the sorted one. The
  witness is a store where this deletes a profile that is not the argument and where it
  reorders the array.
\<close>

theorem remove_update_persist_listing:
  assumes "fst (getConnections e False s) = Inr listed"
  shows "(\<exists>sorted. array_sort (compareConnectionProfile e) (globalConnections s) = Inr sorted
            \<and> listed = filter (\<lambda>p. groupId p \<in> set (map group_id (getGroups e Global s)))
                         (filter (hasConnectionInformation e) sorted))
       \<and> removeConnection e profile s
           = (if \<exists>p\<in>set listed. isSameProfile e p profile
              then (Inr True,
                    writeConnectionsToSettings
                      (filter (\<lambda>p. \<not> isSameProfile e p profile) listed) Global s)
              else (Inr False, s))
       \<and> ((\<exists>p\<in>set listed. profile_id p = profile_id updatedProfile) \<longrightarrow>
            (\<exists>index < length listed.
               profile_id (listed ! index) = profile_id updatedProfile
               \<and> updateConnection e updatedProfile s
                   = (Inr (), writeConnectionsToSettings (listed[index := updatedProfile])
                                Global s)))"
proof -
  have listing: "getConnections e False s = (Inr listed, s)"
    using assms by (rule getConnections_False_result)
  have first: "\<exists>sorted. array_sort (compareConnectionProfile e) (globalConnections s) = Inr sorted
            \<and> listed = filter (\<lambda>p. groupId p \<in> set (map group_id (getGroups e Global s)))
                         (filter (hasConnectionInformation e) sorted)"
    using assms
    by (auto simp: getConnections_def getConnectionsFromSettings_def filterListed_def
             split: sum.splits)
  have second: "removeConnection e profile s
           = (if \<exists>p\<in>set listed. isSameProfile e p profile
              then (Inr True,
                    writeConnectionsToSettings
                      (filter (\<lambda>p. \<not> isSameProfile e p profile) listed) Global s)
              else (Inr False, s))"
    using listing by (simp add: removeConnection_def removeConnectionHelper_filter)
  have third: "(\<exists>p\<in>set listed. profile_id p = profile_id updatedProfile) \<longrightarrow>
            (\<exists>index < length listed.
               profile_id (listed ! index) = profile_id updatedProfile
               \<and> updateConnection e updatedProfile s
                   = (Inr (), writeConnectionsToSettings (listed[index := updatedProfile])
                                Global s))"
  proof
    assume "\<exists>p\<in>set listed. profile_id p = profile_id updatedProfile"
    then obtain index
      where found: "findIndex (\<lambda>p. profile_id p = profile_id updatedProfile) listed = Some index"
      using findIndex_None [of "\<lambda>p. profile_id p = profile_id updatedProfile" listed] by auto
    from findIndex_Some [OF found] listing found
    show "\<exists>index < length listed.
               profile_id (listed ! index) = profile_id updatedProfile
               \<and> updateConnection e updatedProfile s
                   = (Inr (), writeConnectionsToSettings (listed[index := updatedProfile])
                                Global s)"
      by (auto simp: updateConnection_def)
  qed
  from first second third show ?thesis by blast
qed

lemma unsortedStore_listing:
  "fst (getConnections exampleEnv False unsortedStore)
     = Inr [mkProfile ''1'' ''ROOT-ID'' ''alpha'', mkProfile ''2'' ''ROOT-ID'' ''zeta'']"
  by (simp add: unsortedStore_def model_defs example_defs)

theorem remove_update_persist_listing_witness:
  "fst (getConnections exampleEnv False unsortedStore)
     = Inr [mkProfile ''1'' ''ROOT-ID'' ''alpha'', mkProfile ''2'' ''ROOT-ID'' ''zeta'']
   \<and> mkProfile ''3'' ''gone'' ''mid'' \<in> set (globalConnections unsortedStore)
   \<and> \<not> isSameProfile exampleEnv (mkProfile ''3'' ''gone'' ''mid'') (mkProfile ''2'' ''ROOT-ID'' ''zeta'')
   \<and> removeConnection exampleEnv (mkProfile ''2'' ''ROOT-ID'' ''zeta'') unsortedStore
       = (Inr True,
          unsortedStore\<lparr>globalConnections := [mkProfile ''1'' ''ROOT-ID'' ''alpha''],
                        writes := [(connectionsArrayName, Global)]\<rparr>)
   \<and> updateConnection exampleEnv (mkProfile ''2'' ''ROOT-ID'' ''omega'') unsortedStore
       = (Inr (),
          unsortedStore\<lparr>globalConnections :=
                          [mkProfile ''1'' ''ROOT-ID'' ''alpha'', mkProfile ''2'' ''ROOT-ID'' ''omega''],
                        writes := [(connectionsArrayName, Global)]\<rparr>)"
proof -
  note inst = remove_update_persist_listing [OF unsortedStore_listing,
      of "mkProfile ''2'' ''ROOT-ID'' ''zeta''" "mkProfile ''2'' ''ROOT-ID'' ''omega''"]
  have rem: "removeConnection exampleEnv (mkProfile ''2'' ''ROOT-ID'' ''zeta'') unsortedStore
       = (Inr True,
          unsortedStore\<lparr>globalConnections := [mkProfile ''1'' ''ROOT-ID'' ''alpha''],
                        writes := [(connectionsArrayName, Global)]\<rparr>)"
    using inst by (simp add: unsortedStore_def example_defs writeConnectionsToSettings_def)
  have upd: "updateConnection exampleEnv (mkProfile ''2'' ''ROOT-ID'' ''omega'') unsortedStore
       = (Inr (),
          unsortedStore\<lparr>globalConnections :=
                          [mkProfile ''1'' ''ROOT-ID'' ''alpha'', mkProfile ''2'' ''ROOT-ID'' ''omega''],
                        writes := [(connectionsArrayName, Global)]\<rparr>)"
  proof -
    let ?L = "[mkProfile ''1'' ''ROOT-ID'' ''alpha'', mkProfile ''2'' ''ROOT-ID'' ''zeta'']"
    let ?U = "mkProfile ''2'' ''ROOT-ID'' ''omega''"
    have "\<exists>p\<in>set ?L. profile_id p = profile_id ?U"
      by (simp add: mkProfile_def)
    with inst obtain index
      where ix: "index < length ?L"
        and hit: "profile_id (?L ! index) = profile_id ?U"
        and res: "updateConnection exampleEnv ?U unsortedStore
                    = (Inr (), writeConnectionsToSettings (?L[index := ?U]) Global unsortedStore)"
      by blast
    from ix hit have "index = 1"
      by (cases index) (simp_all add: mkProfile_def)
    with res show ?thesis
      by (simp add: unsortedStore_def emptyStore_def writeConnectionsToSettings_def)
  qed
  show ?thesis
    using unsortedStore_listing rem upd
    by (simp add: unsortedStore_def example_defs)
qed

section \<open>Removing a group\<close>

lemma finishRemoveGroup_found:
  assumes "length remainingGroups \<noteq> length groups"
      and "connectionModified \<or> remainingConnections = globalConnections s"
  shows "\<exists>s'. finishRemoveGroup groups connectionModified remainingConnections remainingGroups s
                 = (Inr True, s')
              \<and> globalGroups s' = remainingGroups
              \<and> globalConnections s' = remainingConnections
              \<and> workspaceConnections s' = workspaceConnections s
              \<and> workspaceFolderConnections s' = workspaceFolderConnections s
              \<and> workspaceGroups s' = workspaceGroups s
              \<and> workspaceFolderGroups s' = workspaceFolderGroups s"
  using assms
  by (auto simp: finishRemoveGroup_def writeConnectionsToSettings_def
                 writeConnectionGroupsToSettings_def)

lemma filter_drops_member:
  assumes "x \<in> set xs" and "\<not> P x"
  shows "length (filter P xs) \<noteq> length xs"
proof -
  have "length (filter P xs) < length xs"
    using assms by (meson length_filter_less)
  then show ?thesis by simp
qed


subsection \<open>The ids that a cascading removal collects\<close>












lemma removeGroup_move_stored:
  assumes "ident \<noteq> ROOT_GROUP_ID e"
      and "Some ident \<in> group_id ` set (globalGroups s)"
  shows "\<exists>s'. removeGroup e ident Move s = Some (Inr True, s')
          \<and> globalGroups s'
              = map (\<lambda>g. if parentId g = Some ident
                          then g\<lparr>parentId := Some (ROOT_GROUP_ID e)\<rparr> else g)
                  (filter (\<lambda>g. group_id g \<noteq> Some ident
                                \<and> group_id g \<noteq> Some (ROOT_GROUP_ID e)) (globalGroups s))
          \<and> globalConnections s'
              = map (\<lambda>c. if groupId c = Some ident
                          then c\<lparr>groupId := Some (ROOT_GROUP_ID e)\<rparr> else c)
                  (globalConnections s)
          \<and> workspaceConnections s' = workspaceConnections s
          \<and> workspaceFolderConnections s' = workspaceFolderConnections s
          \<and> workspaceGroups s' = workspaceGroups s
          \<and> workspaceFolderGroups s' = workspaceFolderGroups s"
proof -
  let ?RG = "map (\<lambda>g. if parentId g = Some ident
                          then g\<lparr>parentId := Some (ROOT_GROUP_ID e)\<rparr> else g)
                  (filter (\<lambda>g. group_id g \<noteq> Some ident
                                \<and> group_id g \<noteq> Some (ROOT_GROUP_ID e)) (globalGroups s))"
  let ?RC = "map (\<lambda>c. if groupId c = Some ident
                          then c\<lparr>groupId := Some (ROOT_GROUP_ID e)\<rparr> else c)
                  (globalConnections s)"
  let ?CM = "\<exists>conn\<in>set (globalConnections s). groupId conn = Some ident"
  from assms(2) obtain g where g: "g \<in> set (globalGroups s)" "group_id g = Some ident"
    by auto
  then have len: "length ?RG \<noteq> length (globalGroups s)"
    using filter_drops_member [of g "globalGroups s"
             "\<lambda>g. group_id g \<noteq> Some ident \<and> group_id g \<noteq> Some (ROOT_GROUP_ID e)"]
    by simp
  have same: "?CM \<or> ?RC = globalConnections s"
    by (auto intro: map_idI)
  have run: "removeGroup e ident Move s
               = Some (finishRemoveGroup (globalGroups s) ?CM ?RC ?RG s)"
    using assms(1)
    by (simp add: removeGroup_def getConnectionsFromSettings_def getGroupsFromSettings_def
                  getRootGroup_def Let_def cong: if_cong)
  from finishRemoveGroup_found [OF len same] run show ?thesis by auto
qed

lemma non_root_after_reparent:
  "filter (\<lambda>g. group_id g \<noteq> r)
     (map (\<lambda>g. if parentId g = x then g\<lparr>parentId := y\<rparr> else g)
        (filter (\<lambda>g. group_id g \<noteq> i \<and> group_id g \<noteq> r) groups))
   = map (\<lambda>g. if parentId g = x then g\<lparr>parentId := y\<rparr> else g)
       (filter (\<lambda>g. group_id g \<noteq> i \<and> group_id g \<noteq> r) groups)"
  by (induction groups) auto

text \<open>
  C3, for the global scope. \<^verbatim>\<open>removeGroup(id, "move")\<close> of a group that is stored and
  is not ROOT returns true. The groups of the global scope, as \<^verbatim>\<open>getGroups\<close> reads
  them, are then ROOT and the former ones without the target, where exactly those whose
  \<^verbatim>\<open>parentId\<close> is the target's id now have ROOT as parent; of the stored global
  connections exactly those whose \<^verbatim>\<open>groupId\<close> is the target's id now have ROOT as
  group. Every other field and every other group and global connection is as before, so a
  grandchild keeps its parent; the workspace arrays are untouched, so a workspace
  connection of the target keeps its \<^verbatim>\<open>groupId\<close>.
\<close>

theorem removeGroup_move_reparents:
  assumes "ident \<noteq> ROOT_GROUP_ID e"
      and "Some ident \<in> group_id ` set (globalGroups s)"
  shows "\<exists>s'. removeGroup e ident Move s = Some (Inr True, s')
          \<and> getGroups e Global s'
              = getRootGroup e #
                  map (\<lambda>g. if parentId g = Some ident
                            then g\<lparr>parentId := Some (ROOT_GROUP_ID e)\<rparr> else g)
                    (filter (\<lambda>g. group_id g \<noteq> Some ident
                                  \<and> group_id g \<noteq> Some (ROOT_GROUP_ID e)) (globalGroups s))
          \<and> globalConnections s'
              = map (\<lambda>c. if groupId c = Some ident
                          then c\<lparr>groupId := Some (ROOT_GROUP_ID e)\<rparr> else c)
                  (globalConnections s)
          \<and> workspaceConnections s' = workspaceConnections s
          \<and> workspaceFolderConnections s' = workspaceFolderConnections s
          \<and> workspaceGroups s' = workspaceGroups s
          \<and> workspaceFolderGroups s' = workspaceFolderGroups s"
proof -
  from removeGroup_move_stored [OF assms] obtain s'
    where run: "removeGroup e ident Move s = Some (Inr True, s')"
      and groups: "globalGroups s'
              = map (\<lambda>g. if parentId g = Some ident
                          then g\<lparr>parentId := Some (ROOT_GROUP_ID e)\<rparr> else g)
                  (filter (\<lambda>g. group_id g \<noteq> Some ident
                                \<and> group_id g \<noteq> Some (ROOT_GROUP_ID e)) (globalGroups s))"
      and rest: "globalConnections s'
              = map (\<lambda>c. if groupId c = Some ident
                          then c\<lparr>groupId := Some (ROOT_GROUP_ID e)\<rparr> else c)
                  (globalConnections s)"
        "workspaceConnections s' = workspaceConnections s"
        "workspaceFolderConnections s' = workspaceFolderConnections s"
        "workspaceGroups s' = workspaceGroups s"
        "workspaceFolderGroups s' = workspaceFolderGroups s"
    by blast
  have "getGroups e Global s'
          = getRootGroup e #
              map (\<lambda>g. if parentId g = Some ident
                        then g\<lparr>parentId := Some (ROOT_GROUP_ID e)\<rparr> else g)
                (filter (\<lambda>g. group_id g \<noteq> Some ident
                              \<and> group_id g \<noteq> Some (ROOT_GROUP_ID e)) (globalGroups s))"
    unfolding getGroups_def getGroupsFromSettings_def
    by (simp add: groups non_root_after_reparent)
  with run rest show ?thesis by blast
qed

theorem removeGroup_move_reparents_witness:
  "\<exists>s'. removeGroup exampleEnv ''A'' Move treeStore = Some (Inr True, s')
      \<and> getGroups exampleEnv Global s'
          = [getRootGroup exampleEnv, mkGroup ''B'' ''b'' ''ROOT-ID'',
             mkGroup ''C'' ''c'' ''ROOT-ID'']
      \<and> globalConnections s'
          = [mkProfile ''c1'' ''ROOT-ID'' ''one'', mkProfile ''c2'' ''B'' ''two'',
             mkProfile ''c3'' ''C'' ''three'']"
proof -
  have a: "''A'' \<noteq> ROOT_GROUP_ID exampleEnv"
    by (simp add: exampleEnv_def)
  have b: "Some ''A'' \<in> group_id ` set (globalGroups treeStore)"
    by (simp add: treeStore_def example_defs)
  from removeGroup_move_reparents [OF a b]
  have "\<exists>s'. removeGroup exampleEnv ''A'' Move treeStore = Some (Inr True, s')
      \<and> getGroups exampleEnv Global s'
          = [getRootGroup exampleEnv, mkGroup ''B'' ''b'' ''ROOT-ID'',
             mkGroup ''C'' ''c'' ''ROOT-ID'']
      \<and> globalConnections s'
          = [mkProfile ''c1'' ''ROOT-ID'' ''one'', mkProfile ''c2'' ''B'' ''two'',
             mkProfile ''c3'' ''C'' ''three'']
      \<and> workspaceConnections s' = workspaceConnections treeStore
      \<and> workspaceFolderConnections s' = workspaceFolderConnections treeStore
      \<and> workspaceGroups s' = workspaceGroups treeStore
      \<and> workspaceFolderGroups s' = workspaceFolderGroups treeStore"
    by (simp add: treeStore_def example_defs)
  then show ?thesis by blast
qed

theorem removeGroup_move_reparents_counterexample:
  "workspaceConnections workspaceMemberStore = [mkProfile ''w1'' ''A'' ''ws'']
   \<and> groupId (mkProfile ''w1'' ''A'' ''ws'') = Some ''A''
   \<and> fst (getConnections exampleEnv True workspaceMemberStore)
       = Inr [mkProfile ''w1'' ''A'' ''ws'']
   \<and> removeGroup exampleEnv ''A'' Move workspaceMemberStore
       = Some (Inr True,
               workspaceMemberStore\<lparr>globalGroups := [],
                                     writes := [(connectionGroupsArrayName, Global)]\<rparr>)
   \<and> workspaceConnections
         (workspaceMemberStore\<lparr>globalGroups := [],
                               writes := [(connectionGroupsArrayName, Global)]\<rparr>)
       = [mkProfile ''w1'' ''A'' ''ws'']
   \<and> fst (getConnections exampleEnv True
            (workspaceMemberStore\<lparr>globalGroups := [],
                                  writes := [(connectionGroupsArrayName, Global)]\<rparr>))
       = Inr []"
  by (simp add: removeGroup_def finishRemoveGroup_def workspaceMemberStore_def
        model_defs example_defs Let_def)

text \<open>
  C7. \<^verbatim>\<open>removeGroup\<close> takes "the filter removed something" for "the group was
  found". With a stored record that carries the ROOT id, or (for the cascade) a stored
  group whose parent is the id, the call for an id that no stored group has returns true
  and writes the group array.
\<close>

theorem removeGroup_unknown_id_removes:
  "removeGroup exampleEnv ''X'' Delete
       (emptyStore\<lparr>globalGroups :=
          [\<lparr>group_id = Some ''ROOT-ID'', group_name = Some ''ROOT'', parentId = None\<rparr>]\<rparr>)
     = Some (Inr True, emptyStore\<lparr>globalGroups := [],
                                   writes := [(connectionGroupsArrayName, Global)]\<rparr>)
   \<and> removeGroup exampleEnv ''X'' Move
       (emptyStore\<lparr>globalGroups :=
          [\<lparr>group_id = Some ''ROOT-ID'', group_name = Some ''ROOT'', parentId = None\<rparr>]\<rparr>)
     = Some (Inr True, emptyStore\<lparr>globalGroups := [],
                                   writes := [(connectionGroupsArrayName, Global)]\<rparr>)
   \<and> removeGroup exampleEnv ''X'' Delete
       (emptyStore\<lparr>globalGroups := [mkGroup ''B'' ''b'' ''X'']\<rparr>)
     = Some (Inr True, emptyStore\<lparr>globalGroups := [],
                                   writes := [(connectionGroupsArrayName, Global)]\<rparr>)"
  by (simp add: removeGroup_def getAllSubgroupIds.simps finishRemoveGroup_def
        model_defs example_defs Let_def)

section \<open>The integrity pass\<close>

subsection \<open>The loop over the groups\<close>

lemma repairGroup_unchanged:
  "groupClean legacy valid g \<Longrightarrow> repairGroup e legacy valid g n = (g, False, n, [])"
  by (simp add: repairGroup_def groupClean_def)

lemma repairGroup_post:
  assumes "repairGroup e legacy valid g n = (g', c, n', l)"
  shows "groupRepaired e legacy valid g g'"
    and "\<not> c \<Longrightarrow> groupClean legacy valid g"
  using assms
  by (auto simp: repairGroup_def groupRepaired_def groupClean_def Let_def split: if_splits)

lemma repairGroups_unchanged:
  "\<forall>g\<in>set gs. groupClean legacy valid g \<Longrightarrow>
     repairGroups e legacy valid gs n = (gs, False, n, [])"
  by (induction gs) (simp_all add: repairGroup_unchanged)

lemma repairGroups_post:
  assumes "repairGroups e legacy valid gs n = (gs', c, n', l)"
  shows "list_all2 (groupRepaired e legacy valid) gs gs'
         \<and> (\<not> c \<longrightarrow> (\<forall>g\<in>set gs. groupClean legacy valid g))"
  using assms
proof (induction gs arbitrary: n gs' c n' l)
  case Nil
  then show ?case by simp
next
  case (Cons g gs)
  obtain g1 integrity_pass_idempotent n1 l1 where first: "repairGroup e legacy valid g n = (g1, integrity_pass_idempotent, n1, l1)"
    by (cases "repairGroup e legacy valid g n") auto
  obtain gs1 c2 n2 l2 where rest: "repairGroups e legacy valid gs n1 = (gs1, c2, n2, l2)"
    by (cases "repairGroups e legacy valid gs n1") auto
  from Cons.prems first rest have eqs: "gs' = g1 # gs1" "c = (integrity_pass_idempotent \<or> c2)"
    by simp_all
  from Cons.IH [OF rest] repairGroup_post [OF first] eqs show ?case
    by auto
qed

lemma legacyRootIds_not_root: "Some (ROOT_GROUP_ID e) \<notin> set (legacyRootIds e groups)"
  by (auto simp: legacyRootIds_def)

lemma list_all2_right_member:
  "list_all2 R xs ys \<Longrightarrow> y \<in> set ys \<Longrightarrow> \<exists>x\<in>set xs. R x y"
  by (induction rule: list_all2_induct) auto

lemma list_all2_left_member:
  "list_all2 R xs ys \<Longrightarrow> x \<in> set xs \<Longrightarrow> \<exists>y\<in>set ys. R x y"
  by (induction rule: list_all2_induct) auto

lemma truthy_Some: "truthy (Some x) = (x \<noteq> [])"
  by (simp add: truthy_def)

lemma repaired_groups_clean:
  assumes root: "ROOT_GROUP_ID e \<noteq> []"
      and guids: "\<forall>k. generateGuid e k \<noteq> [] \<and> Some (generateGuid e k) \<notin> parentId ` set groups0"
      and rep: "list_all2 (groupRepaired e (legacyRootIds e groups0)
                  (insert (Some (ROOT_GROUP_ID e))
                     (group_id ` {h \<in> set groups0. group_id h \<noteq> Some (ROOT_GROUP_ID e)})))
                  (filter (\<lambda>g. group_id g \<noteq> Some (ROOT_GROUP_ID e)) groups0) groups'"
  shows "groupsClean e groups'"
  unfolding groupsClean_def
proof (intro ballI impI)
  let ?R = "Some (ROOT_GROUP_ID e)"
  let ?L = "legacyRootIds e groups0"
  let ?V = "insert ?R (group_id ` {h \<in> set groups0. group_id h \<noteq> ?R})"
  let ?gs = "filter (\<lambda>g. group_id g \<noteq> ?R) groups0"
  let ?V' = "insert ?R (group_id ` {h \<in> set groups'. group_id h \<noteq> ?R})"
  fix g'
  assume g': "g' \<in> set groups'" and notroot: "group_id g' \<noteq> ?R"
  from list_all2_right_member [OF rep g'] obtain g
    where g: "g \<in> set ?gs" and rg: "groupRepaired e ?L ?V g g'"
    by blast
  have id_truthy: "truthy (group_id g')"
    using rg guids by (auto simp: groupRepaired_def truthy_Some split: if_splits)
  have parent_cases: "parentId g' = ?R
      \<or> (parentId g' = parentId g \<and> parentId g \<notin> set ?L \<and> truthy (parentId g)
         \<and> parentId g \<in> ?V)"
    using rg by (simp add: groupRepaired_def)
  have parent_truthy: "truthy (parentId g')"
    using parent_cases root by (auto simp: truthy_Some)
  have parent_valid: "parentId g' \<in> ?V'"
  proof (cases "parentId g' = ?R")
    case True
    then show ?thesis by simp
  next
    case False
    with parent_cases have same: "parentId g' = parentId g" and tr: "truthy (parentId g)"
      and inV: "parentId g \<in> ?V"
      by auto
    from inV False same obtain h where h: "h \<in> set groups0" "group_id h \<noteq> ?R"
      "group_id h = parentId g"
      by auto
    then have "h \<in> set ?gs" by simp
    from list_all2_left_member [OF rep this] obtain h'
      where h': "h' \<in> set groups'" and rh: "groupRepaired e ?L ?V h h'"
      by blast
    from rh tr h(3) have "group_id h' = group_id h"
      by (simp add: groupRepaired_def)
    with h h' same show ?thesis by force
  qed
  have parent_not_legacy: "parentId g' \<notin> set (legacyRootIds e groups')"
  proof
    assume "parentId g' \<in> set (legacyRootIds e groups')"
    then obtain h' where h': "h' \<in> set groups'" "group_name h' = Some (ROOT_GROUP_NAME e)"
      "group_id h' \<noteq> ?R" "group_id h' = parentId g'"
      by (auto simp: legacyRootIds_def)
    from list_all2_right_member [OF rep h'(1)] obtain h
      where h: "h \<in> set ?gs" and rh: "groupRepaired e ?L ?V h h'"
      by blast
    from h'(3,4) parent_cases have same: "parentId g' = parentId g"
      and notL: "parentId g \<notin> set ?L"
      by auto
    show False
    proof (cases "truthy (group_id h)")
      case True
      with rh have "group_id h' = group_id h" "group_name h' = group_name h"
        by (simp_all add: groupRepaired_def)
      with h h' have "h \<in> {x \<in> set groups0. group_name x = Some (ROOT_GROUP_NAME e)
                                \<and> group_id x \<noteq> ?R}"
        by simp
      then have "group_id h \<in> set ?L"
        unfolding legacyRootIds_def by (simp only: set_map set_filter imageI)
      with \<open>group_id h' = group_id h\<close> h'(4) same notL show False by simp
    next
      case False
      with rh obtain k where "group_id h' = Some (generateGuid e k)"
        by (auto simp: groupRepaired_def)
      with h'(4) same have "Some (generateGuid e k) = parentId g" by simp
      moreover from g have "g \<in> set groups0" by simp
      ultimately show False using guids by force
    qed
  qed
  show "groupClean (legacyRootIds e groups') ?V' g'"
    using id_truthy parent_truthy parent_valid parent_not_legacy
    by (simp add: groupClean_def)
qed

lemma assignGroups_fixed:
  assumes "groupsClean e (globalGroups s)"
  shows "assignConnectionGroupMissingIds e s = s"
proof -
  let ?R = "Some (ROOT_GROUP_ID e)"
  let ?gs = "filter (\<lambda>g. group_id g \<noteq> ?R) (globalGroups s)"
  let ?V = "insert ?R (set (map group_id ?gs))"
  have V: "?V = insert ?R (group_id ` {h \<in> set (globalGroups s). group_id h \<noteq> ?R})"
    by auto
  have "\<forall>g\<in>set ?gs. groupClean (legacyRootIds e (globalGroups s)) ?V g"
    using assms unfolding groupsClean_def V by simp
  then have "repairGroups e (legacyRootIds e (globalGroups s)) ?V ?gs (guidsGenerated s)
               = (?gs, False, guidsGenerated s, [])"
    by (rule repairGroups_unchanged)
  then show ?thesis
    by (simp add: assignConnectionGroupMissingIds_def getGroupsFromSettings_def Let_def)
qed

lemma assignGroups_clean:
  assumes root: "ROOT_GROUP_ID e \<noteq> []"
      and guids: "freshGuids e s"
  shows "groupsClean e (globalGroups (assignConnectionGroupMissingIds e s))"
proof -
  let ?R = "Some (ROOT_GROUP_ID e)"
  let ?gs = "filter (\<lambda>g. group_id g \<noteq> ?R) (globalGroups s)"
  let ?V = "insert ?R (set (map group_id ?gs))"
  let ?L = "legacyRootIds e (globalGroups s)"
  have V: "?V = insert ?R (group_id ` {h \<in> set (globalGroups s). group_id h \<noteq> ?R})"
    by auto
  obtain gs' c n' l where run: "repairGroups e ?L ?V ?gs (guidsGenerated s) = (gs', c, n', l)"
    by (cases "repairGroups e ?L ?V ?gs (guidsGenerated s)") auto
  note post = repairGroups_post [OF run]
  show ?thesis
  proof (cases c)
    case True
    then have "globalGroups (assignConnectionGroupMissingIds e s) = gs'"
      using run
      by (simp add: assignConnectionGroupMissingIds_def getGroupsFromSettings_def Let_def
                    writeConnectionGroupsToSettings_def)
    moreover have "groupsClean e gs'"
      using root guids post unfolding V freshGuids_def
      by (intro repaired_groups_clean [where ?groups0.0 = "globalGroups s"]) auto
    ultimately show ?thesis by simp
  next
    case False
    with post have "\<forall>g\<in>set ?gs. groupClean ?L ?V g" by simp
    then have clean: "groupsClean e (globalGroups s)"
      unfolding groupsClean_def V by simp
    then have "assignConnectionGroupMissingIds e s = s"
      by (rule assignGroups_fixed)
    with clean show ?thesis by simp
  qed
qed


subsection \<open>The loop over the profiles\<close>

lemma repairProfile_unchanged:
  "profileClean legacy p \<Longrightarrow> groupId p \<in> valid \<Longrightarrow>
     repairProfile e legacy valid p n = (p, False, n, [])"
  by (auto simp: repairProfile_def profileClean_def populateMissingConnectionIds_def)

lemma repairProfile_post:
  assumes "repairProfile e legacy valid p n = (p', c, n', l)"
      and "groupId p \<in> valid" and "Some (ROOT_GROUP_ID e) \<in> valid"
      and "Some (ROOT_GROUP_ID e) \<notin> set legacy"
  shows "profileClean legacy p'"
    and "\<not> c \<Longrightarrow> p' = p \<and> n' = n \<and> l = []"
    and "ReparentedOrphanedConnection q \<notin> set l"
    and "groupId p' = migratedGroupId e legacy (groupId p)"
  using assms
  by (auto simp: repairProfile_def profileClean_def populateMissingConnectionIds_def
                 addIdIfMissing_def migratedGroupId_def Let_def
           split: if_splits)

lemma repairProfiles_unchanged:
  "\<forall>p\<in>set ps. profileClean legacy p \<and> groupId p \<in> valid \<Longrightarrow>
     repairProfiles e legacy valid ps n = (ps, False, n, [])"
  by (induction ps) (simp_all add: repairProfile_unchanged)

lemma repairProfiles_post:
  assumes "repairProfiles e legacy valid ps n = (ps', c, n', l)"
      and "groupId ` set ps \<subseteq> valid" and "Some (ROOT_GROUP_ID e) \<in> valid"
      and "Some (ROOT_GROUP_ID e) \<notin> set legacy"
  shows "(\<forall>p'\<in>set ps'. profileClean legacy p')
         \<and> (\<not> c \<longrightarrow> ps' = ps \<and> n' = n \<and> l = [])
         \<and> ReparentedOrphanedConnection q \<notin> set l
         \<and> map groupId ps' = map (\<lambda>p. migratedGroupId e legacy (groupId p)) ps"
  using assms
proof (induction ps arbitrary: n ps' c n' l)
  case Nil
  then show ?case by simp
next
  case (Cons p ps)
  obtain p1 integrity_pass_idempotent n1 l1 where first: "repairProfile e legacy valid p n = (p1, integrity_pass_idempotent, n1, l1)"
    by (cases "repairProfile e legacy valid p n") auto
  obtain ps1 c2 n2 l2 where rest: "repairProfiles e legacy valid ps n1 = (ps1, c2, n2, l2)"
    by (cases "repairProfiles e legacy valid ps n1") auto
  from Cons.prems(1) first rest
  have eqs: "ps' = p1 # ps1" "c = (integrity_pass_idempotent \<or> c2)" "n' = n2" "l = l1 @ l2"
    by simp_all
  from Cons.prems(2) have inV: "groupId p \<in> valid" and tailV: "groupId ` set ps \<subseteq> valid"
    by simp_all
  note head = repairProfile_post [OF first inV Cons.prems(3,4)]
  note tail = Cons.IH [OF rest tailV Cons.prems(3,4)]
  show ?case
    using head(1) head(2) head(3) [of q] head(4) tail eqs by auto
qed

lemma assignConnections_run:
  obtains ps' c n' l
  where "repairProfiles e (legacyRootIds e (globalGroups s))
           (insert (Some (ROOT_GROUP_ID e)) (set (map groupId (globalConnections s))))
           (globalConnections s) (guidsGenerated s) = (ps', c, n', l)"
    and "(\<forall>p'\<in>set ps'. profileClean (legacyRootIds e (globalGroups s)) p')"
    and "\<not> c \<Longrightarrow> ps' = globalConnections s \<and> n' = guidsGenerated s \<and> l = []"
    and "\<And>q. ReparentedOrphanedConnection q \<notin> set l"
    and "map groupId ps'
           = map (\<lambda>p. migratedGroupId e (legacyRootIds e (globalGroups s)) (groupId p))
               (globalConnections s)"
proof -
  let ?L = "legacyRootIds e (globalGroups s)"
  let ?V = "insert (Some (ROOT_GROUP_ID e)) (set (map groupId (globalConnections s)))"
  obtain ps' c n' l
    where run: "repairProfiles e ?L ?V (globalConnections s) (guidsGenerated s) = (ps', c, n', l)"
    by (cases "repairProfiles e ?L ?V (globalConnections s) (guidsGenerated s)") auto
  have a: "groupId ` set (globalConnections s) \<subseteq> ?V" by auto
  have b: "Some (ROOT_GROUP_ID e) \<in> ?V" by simp
  note post = repairProfiles_post [OF run a b legacyRootIds_not_root]
  show thesis
    using that [OF run] post by blast
qed

lemma assignConnections_result:
  assumes "repairProfiles e (legacyRootIds e (globalGroups s))
           (insert (Some (ROOT_GROUP_ID e)) (set (map groupId (globalConnections s))))
           (globalConnections s) (guidsGenerated s) = (ps', c, n', l)"
  shows "assignConnectionMissingIds e s
           = (if c then s\<lparr>globalConnections := ps', guidsGenerated := n',
                          writes := writes s @ [(connectionsArrayName, Global)],
                          debugLog := debugLog s @ l @ [WritingConnections (length ps')]\<rparr>
              else s\<lparr>guidsGenerated := n', debugLog := debugLog s @ l\<rparr>)"
  using assms
  by (simp add: assignConnectionMissingIds_def getConnectionsFromSettings_def
                getGroupsFromSettings_def writeConnectionsToSettings_def Let_def)

lemma assignConnections_groups:
  "globalGroups (assignConnectionMissingIds e s) = globalGroups s"
  by (rule assignConnections_run [of e s]) (simp add: assignConnections_result)

lemma assignConnections_clean:
  "\<forall>p\<in>set (globalConnections (assignConnectionMissingIds e s)).
     profileClean (legacyRootIds e (globalGroups s)) p"
  by (rule assignConnections_run [of e s]) (auto simp: assignConnections_result)

lemma assignConnections_fixed:
  assumes "\<forall>p\<in>set (globalConnections s). profileClean (legacyRootIds e (globalGroups s)) p"
  shows "assignConnectionMissingIds e s = s"
proof -
  let ?L = "legacyRootIds e (globalGroups s)"
  let ?V = "insert (Some (ROOT_GROUP_ID e)) (set (map groupId (globalConnections s)))"
  have "\<forall>p\<in>set (globalConnections s). profileClean ?L p \<and> groupId p \<in> ?V"
    using assms by simp
  then have run: "repairProfiles e ?L ?V (globalConnections s) (guidsGenerated s)
               = (globalConnections s, False, guidsGenerated s, [])"
    by (rule repairProfiles_unchanged)
  show ?thesis
    using assignConnections_result [OF run] by simp
qed

text \<open>
  C1. The integrity pass (the groups pass, then the profiles pass) is idempotent: run on
  the state that one run of it leaves, it returns that very state. So no stored record
  has changed, no GUID was generated, nothing was logged, and the list of settings writes
  has not grown. The reserved ROOT id is taken to be a non-empty string and the GUID
  generator to return non-empty strings that no stored group uses as its parent reference.
\<close>

theorem integrity_pass_idempotent:
  assumes "ROOT_GROUP_ID e \<noteq> []" and "freshGuids e s"
  shows "initialize e (initialize e s) = initialize e s
         \<and> writes (initialize e (initialize e s)) = writes (initialize e s)"
proof -
  let ?s1 = "assignConnectionGroupMissingIds e s"
  let ?s2 = "assignConnectionMissingIds e ?s1"
  have "groupsClean e (globalGroups ?s1)"
    using assms by (rule assignGroups_clean)
  then have "groupsClean e (globalGroups ?s2)"
    by (simp add: assignConnections_groups)
  then have groups: "assignConnectionGroupMissingIds e ?s2 = ?s2"
    by (rule assignGroups_fixed)
  have "\<forall>p\<in>set (globalConnections ?s2). profileClean (legacyRootIds e (globalGroups ?s2)) p"
    using assignConnections_clean [of e ?s1] by (simp add: assignConnections_groups)
  then have "assignConnectionMissingIds e ?s2 = ?s2"
    by (rule assignConnections_fixed)
  with groups show ?thesis
    by (simp add: initialize_def)
qed

lemma legacyStore_fresh: "freshGuids exampleEnv legacyStore"
  by (simp add: freshGuids_def legacyStore_def example_defs)

lemma legacyStore_initialize:
  "writes (initialize exampleEnv legacyStore)
     = [(connectionGroupsArrayName, Global), (connectionsArrayName, Global)]
   \<and> globalGroups (initialize exampleEnv legacyStore)
     = [\<lparr>group_id = Some ''old-root'', group_name = Some ''ROOT'', parentId = Some ''ROOT-ID''\<rparr>,
        mkGroup ''G1'' ''g1'' ''ROOT-ID'', mkGroup ''G2'' ''g2'' ''ROOT-ID'',
        \<lparr>group_id = Some ''#'', group_name = Some ''g3'', parentId = Some ''G1''\<rparr>]"
  by (simp add: initialize_def assignConnectionGroupMissingIds_def assignConnectionMissingIds_def
        repairGroup_def repairProfile_def populateMissingConnectionIds_def addIdIfMissing_def
        legacyRootIds_def legacyStore_def model_defs example_defs Let_def)

theorem integrity_pass_idempotent_witness:
  "ROOT_GROUP_ID exampleEnv \<noteq> [] \<and> freshGuids exampleEnv legacyStore
   \<and> writes (initialize exampleEnv legacyStore)
       = [(connectionGroupsArrayName, Global), (connectionsArrayName, Global)]
   \<and> initialize exampleEnv (initialize exampleEnv legacyStore)
       = initialize exampleEnv legacyStore"
proof -
  have root: "ROOT_GROUP_ID exampleEnv \<noteq> []"
    by (simp add: exampleEnv_def)
  from integrity_pass_idempotent [OF root legacyStore_fresh] root legacyStore_fresh legacyStore_initialize
  show ?thesis by simp
qed


text \<open>
  C9. In the profile pass the branch that re-parents an orphaned connection is never
  taken: whatever the store, the pass logs no "re-parented orphaned connection" line,
  and the group reference of every stored profile afterwards is the one before, set to
  ROOT where it was a legacy root id or was missing. A reference to a group that does not
  exist stays as it is.
\<close>

theorem orphan_repair_unreachable:
  "\<exists>events. debugLog (assignConnectionMissingIds e s) = debugLog s @ events
       \<and> (\<forall>q. ReparentedOrphanedConnection q \<notin> set events)
       \<and> map groupId (globalConnections (assignConnectionMissingIds e s))
           = map (\<lambda>p. migratedGroupId e (legacyRootIds e (globalGroups s)) (groupId p))
               (globalConnections s)"
proof (rule assignConnections_run [of e s])
  fix ps' c n' l
  assume run: "repairProfiles e (legacyRootIds e (globalGroups s))
           (insert (Some (ROOT_GROUP_ID e)) (set (map groupId (globalConnections s))))
           (globalConnections s) (guidsGenerated s) = (ps', c, n', l)"
    and same: "\<not> c \<Longrightarrow> ps' = globalConnections s \<and> n' = guidsGenerated s \<and> l = []"
    and none: "\<And>q. ReparentedOrphanedConnection q \<notin> set l"
    and ids: "map groupId ps'
           = map (\<lambda>p. migratedGroupId e (legacyRootIds e (globalGroups s)) (groupId p))
               (globalConnections s)"
  show ?thesis
  proof (cases c)
    case True
    with none ids show ?thesis
      by (intro exI [of _ "l @ [WritingConnections (length ps')]"])
         (simp add: assignConnections_result [OF run])
  next
    case False
    with same none ids show ?thesis
      by (intro exI [of _ "[]"]) (simp add: assignConnections_result [OF run])
  qed
qed




theorem orphan_repair_unreachable_witness:
  "map groupId (globalConnections (assignConnectionMissingIds exampleEnv legacyStore))
     = [Some ''ROOT-ID'', Some ''ROOT-ID'', Some ''nowhere'']"
  using orphan_repair_unreachable [of exampleEnv legacyStore]
  by (simp add: migratedGroupId_def legacyRootIds_def legacyStore_def example_defs)


section \<open>Listing the connections\<close>

lemma compare_Inr:
  "compareConnectionProfile e x y = Inr c \<Longrightarrow>
     c = localeCompare e (keyOrUndefined x) (keyOrUndefined y)"
  by (auto simp: compareConnectionProfile_def keyOrUndefined_def split: option.splits)

lemma compare_total:
  "displayKey x \<noteq> None \<Longrightarrow> \<exists>c. compareConnectionProfile e x y = Inr c"
  by (auto simp: compareConnectionProfile_def)

lemma insertSorted_mset:
  "insertSorted cmp x ys = Inr zs \<Longrightarrow> mset zs = add_mset x (mset ys)"
  by (induction ys arbitrary: zs) (auto split: sum.splits if_splits)

lemma insertSorted_sorted:
  assumes "consistentComparator (localeCompare e)"
      and "sorted_wrt (keyOrder e) ys"
      and "insertSorted (compareConnectionProfile e) x ys = Inr zs"
  shows "sorted_wrt (keyOrder e) zs"
  using assms(2,3)
proof (induction ys arbitrary: zs)
  case Nil
  then show ?case by auto
next
  case (Cons y ys)
  from Cons.prems(2) obtain c where c: "compareConnectionProfile e x y = Inr c"
    by (auto split: sum.splits)
  note cval = compare_Inr [OF c]
  have trans: "\<And>a b d. keyOrder e a b \<Longrightarrow> keyOrder e b d \<Longrightarrow> keyOrder e a d"
    using assms(1) unfolding consistentComparator_def keyOrder_def by blast
  show ?case
  proof (cases "c < 0")
    case True
    with c Cons.prems(2) have zs: "zs = x # y # ys" by simp
    from True cval have xy: "keyOrder e x y" by (simp add: keyOrder_def)
    have "\<forall>z\<in>set ys. keyOrder e x z"
      using Cons.prems(1) xy trans by auto
    with xy Cons.prems(1) zs show ?thesis by simp
  next
    case False
    with c Cons.prems(2) obtain zs' where ins: "insertSorted (compareConnectionProfile e) x ys = Inr zs'"
      and zs: "zs = y # zs'"
      by (auto split: sum.splits)
    from False cval have "0 \<le> localeCompare e (keyOrUndefined x) (keyOrUndefined y)" by simp
    then have yx: "keyOrder e y x"
      using assms(1) unfolding consistentComparator_def keyOrder_def by blast
    from Cons.prems(1) have sorted_ys: "sorted_wrt (keyOrder e) ys" by simp
    have "set zs' = insert x (set ys)"
      using insertSorted_mset [OF ins] by (metis set_mset_add_mset_insert set_mset_mset)
    with yx Cons.prems(1) have "\<forall>z\<in>set zs'. keyOrder e y z" by auto
    with Cons.IH [OF sorted_ys ins] zs show ?thesis by simp
  qed
qed

lemma sortInto_mset:
  "sortInto cmp acc xs = Inr ys \<Longrightarrow> mset ys = mset acc + mset xs"
  by (induction xs arbitrary: acc) (auto split: sum.splits dest: insertSorted_mset)

lemma sortInto_sorted:
  assumes "consistentComparator (localeCompare e)"
  shows "sorted_wrt (keyOrder e) acc \<Longrightarrow> sortInto (compareConnectionProfile e) acc xs = Inr ys
           \<Longrightarrow> sorted_wrt (keyOrder e) ys"
  by (induction xs arbitrary: acc)
     (auto split: sum.splits dest: insertSorted_sorted [OF assms])

lemma insertSorted_total:
  "displayKey x \<noteq> None \<Longrightarrow> \<exists>zs. insertSorted (compareConnectionProfile e) x ys = Inr zs"
proof (induction ys)
  case Nil
  then show ?case by simp
next
  case (Cons y ys)
  from compare_total [OF Cons.prems, of e y] obtain c
    where "compareConnectionProfile e x y = Inr c" by blast
  with Cons.IH [OF Cons.prems] show ?case by auto
qed

lemma sortInto_total:
  "\<forall>x\<in>set xs. displayKey x \<noteq> None \<Longrightarrow>
     \<exists>ys. sortInto (compareConnectionProfile e) acc xs = Inr ys"
proof (induction xs arbitrary: acc)
  case Nil
  then show ?case by simp
next
  case (Cons x xs)
  from Cons.prems have "displayKey x \<noteq> None" by simp
  from insertSorted_total [OF this, of e acc] obtain acc'
    where "insertSorted (compareConnectionProfile e) x acc = Inr acc'" by blast
  moreover from Cons.prems have "\<forall>x\<in>set xs. displayKey x \<noteq> None" by simp
  from Cons.IH [OF this, of acc'] obtain ys
    where "sortInto (compareConnectionProfile e) acc' xs = Inr ys" by blast
  ultimately show ?case by simp
qed

lemma array_sort_mset: "array_sort cmp xs = Inr ys \<Longrightarrow> mset ys = mset xs"
  by (auto simp: array_sort_def dest: sortInto_mset)

lemma array_sort_sorted:
  "consistentComparator (localeCompare e) \<Longrightarrow>
     array_sort (compareConnectionProfile e) xs = Inr ys \<Longrightarrow> sorted_wrt (keyOrder e) ys"
  unfolding array_sort_def by (rule sortInto_sorted [where acc = "[]"]) simp_all

lemma array_sort_total:
  "\<forall>x\<in>set xs. displayKey x \<noteq> None \<Longrightarrow>
     \<exists>ys. array_sort (compareConnectionProfile e) xs = Inr ys"
  unfolding array_sort_def by (rule sortInto_total)

lemma filterListed_filter: "filterListed e s profiles = filter (listable e s) profiles"
  by (cases profiles) (simp_all add: filterListed_def listable_def [abs_def] Let_def)

lemma listable_flag [simp]:
  "listable e (s\<lparr>hasDisplayedMissingIdError := b\<rparr>) = listable e s"
  by (rule ext) (simp add: listable_def getGroups_def getGroupsFromSettings_def)

lemma getConnections_True_result:
  assumes "fst (getConnections e True s) = Inr listed"
  shows "\<exists>us ws. array_sort (compareConnectionProfile e) (globalConnections s) = Inr us
           \<and> array_sort (compareConnectionProfile e)
                 (filter (\<lambda>p. truthy (profile_id p))
                    (workspaceConnections s @ workspaceFolderConnections s)) = Inr ws
           \<and> listed = filter (listable e s) us @ filter (listable e s) ws"
  using assms
  by (auto simp: getConnections_def getConnectionsFromSettings_def filterListed_filter Let_def
           split: sum.splits if_splits)

lemma listable_has_key: "hasConnectionInformation e p \<Longrightarrow> displayKey p \<noteq> None"
  by (auto simp: hasConnectionInformation_def displayKey_def truthy_def split: option.splits)

lemma sorted_listable:
  assumes "sorted_wrt (keyOrder e) xs"
  shows "sortedByDisplayKey e (filter (listable e s) xs)"
proof -
  have "sorted_wrt (keyOrder e) (filter (listable e s) xs)"
    using assms by (rule sorted_wrt_filter)
  then have "sorted_wrt (\<lambda>a b. case (displayKey a, displayKey b) of
                          (Some nameA, Some nameB) \<Rightarrow> localeCompare e nameA nameB \<le> 0
                        | _ \<Rightarrow> False) (filter (listable e s) xs)"
  proof (rule sorted_wrt_mono_rel [rotated])
    fix a b
    assume "a \<in> set (filter (listable e s) xs)" "b \<in> set (filter (listable e s) xs)"
      and "keyOrder e a b"
    then show "case (displayKey a, displayKey b) of
                          (Some nameA, Some nameB) \<Rightarrow> localeCompare e nameA nameB \<le> 0
                        | _ \<Rightarrow> False"
      using listable_has_key [of e a] listable_has_key [of e b]
      by (auto simp: listable_def keyOrder_def keyOrUndefined_def split: option.splits)
  qed
  then show ?thesis by (simp add: sortedByDisplayKey_def)
qed

text \<open>
  C5. With a consistent comparison of strings: a list that \<^verbatim>\<open>getConnections(true)\<close>
  returns is a block of global profiles followed by a block of workspace profiles. The
  first holds exactly the listed profiles of the global array, the second exactly the
  listed profiles of the workspace arrays that have an id, and each block is in the order
  of the display keys.
\<close>

theorem getConnections_scopes_sorted:
  assumes "consistentComparator (localeCompare e)"
      and "fst (getConnections e True s) = Inr listed"
  shows "\<exists>fromGlobal fromWorkspace.
           listed = fromGlobal @ fromWorkspace
           \<and> mset fromGlobal = mset (filter (listable e s) (globalConnections s))
           \<and> mset fromWorkspace
               = mset (filter (listable e s)
                        (filter (\<lambda>p. truthy (profile_id p))
                           (workspaceConnections s @ workspaceFolderConnections s)))
           \<and> sortedByDisplayKey e fromGlobal
           \<and> sortedByDisplayKey e fromWorkspace"
proof -
  from assms(2) obtain us ws
    where us: "array_sort (compareConnectionProfile e) (globalConnections s) = Inr us"
      and ws: "array_sort (compareConnectionProfile e)
                 (filter (\<lambda>p. truthy (profile_id p))
                    (workspaceConnections s @ workspaceFolderConnections s)) = Inr ws"
      and listed: "listed = filter (listable e s) us @ filter (listable e s) ws"
    using getConnections_True_result by blast
  have "mset (filter (listable e s) us) = mset (filter (listable e s) (globalConnections s))"
    using array_sort_mset [OF us] by (metis mset_filter)
  moreover have "mset (filter (listable e s) ws)
      = mset (filter (listable e s) (filter (\<lambda>p. truthy (profile_id p))
                           (workspaceConnections s @ workspaceFolderConnections s)))"
    using array_sort_mset [OF ws] by (metis mset_filter)
  moreover have "sortedByDisplayKey e (filter (listable e s) us)"
    using array_sort_sorted [OF assms(1) us] by (rule sorted_listable)
  moreover have "sortedByDisplayKey e (filter (listable e s) ws)"
    using array_sort_sorted [OF assms(1) ws] by (rule sorted_listable)
  ultimately show ?thesis using listed by blast
qed


lemma scopedStore_listing:
  "fst (getConnections exampleEnv True scopedStore)
     = Inr [mkProfile ''2'' ''ROOT-ID'' ''alpha'', mkProfile ''1'' ''ROOT-ID'' ''zeta'',
            mkProfile ''4'' ''ROOT-ID'' ''beta'', mkProfile ''3'' ''ROOT-ID'' ''mid'']"
  by (simp add: scopedStore_def model_defs example_defs Let_def)

theorem getConnections_scopes_sorted_witness:
  "\<exists>fromGlobal fromWorkspace.
     [mkProfile ''2'' ''ROOT-ID'' ''alpha'', mkProfile ''1'' ''ROOT-ID'' ''zeta'',
      mkProfile ''4'' ''ROOT-ID'' ''beta'', mkProfile ''3'' ''ROOT-ID'' ''mid'']
       = fromGlobal @ fromWorkspace
     \<and> mset fromGlobal
         = mset [mkProfile ''1'' ''ROOT-ID'' ''zeta'', mkProfile ''2'' ''ROOT-ID'' ''alpha'']
     \<and> mset fromWorkspace
         = mset [mkProfile ''3'' ''ROOT-ID'' ''mid'', mkProfile ''4'' ''ROOT-ID'' ''beta'']
     \<and> sortedByDisplayKey exampleEnv fromGlobal
     \<and> sortedByDisplayKey exampleEnv fromWorkspace"
  using getConnections_scopes_sorted [OF codeUnitCompare_consistent scopedStore_listing]
  by (simp add: listable_def scopedStore_def model_defs example_defs)


section \<open>Adding a connection\<close>

lemma find_member:
  "\<exists>x\<in>set xs. P x \<Longrightarrow> \<exists>y. find P xs = Some y \<and> y \<in> set xs \<and> P y"
  by (induction xs) auto

lemma getConnections_True_total:
  assumes "\<forall>q\<in>set (globalConnections s). displayKey q \<noteq> None"
      and "\<forall>q\<in>set (workspaceConnections s @ workspaceFolderConnections s). displayKey q \<noteq> None"
  shows "\<exists>listed s'. getConnections e True s = (Inr listed, s')"
proof -
  from array_sort_total [OF assms(1), of e] obtain us
    where us: "array_sort (compareConnectionProfile e) (globalConnections s) = Inr us" by blast
  have "\<forall>q\<in>set (filter (\<lambda>p. truthy (profile_id p))
                  (workspaceConnections s @ workspaceFolderConnections s)). displayKey q \<noteq> None"
    using assms(2) by auto
  from array_sort_total [OF this, of e] obtain ws
    where ws: "array_sort (compareConnectionProfile e)
                 (filter (\<lambda>p. truthy (profile_id p))
                    (workspaceConnections s @ workspaceFolderConnections s)) = Inr ws" by blast
  from us ws show ?thesis
    by (simp add: getConnections_def getConnectionsFromSettings_def Let_def)
qed

lemma populate_fields:
  assumes "populateMissingConnectionIds e p n = (m, p1, n1)"
  shows "server p1 = server p" and "connectionString p1 = connectionString p"
    and "profileName p1 = profileName p"
    and "groupId p1 = (if groupId p = None then Some (ROOT_GROUP_ID e) else groupId p)"
    and "profile_id p1 = (if profile_id p = None then Some (generateGuid e n) else profile_id p)"
  using assms
  by (auto simp: populateMissingConnectionIds_def addIdIfMissing_def Let_def split: if_splits)

lemma addConnection_global:
  assumes "addConnection e p Global s = (p1, s1)"
  shows "globalConnections s1
           = filter (\<lambda>v. \<not> isSameProfile e v p1) (globalConnections s) @ [p1]"
    and "workspaceConnections s1 = workspaceConnections s"
    and "workspaceFolderConnections s1 = workspaceFolderConnections s"
    and "globalGroups s1 = globalGroups s"
    and "hasConnectionInformation e p1 = hasConnectionInformation e p"
    and "displayKey p1 = displayKey p"
    and "groupId p1 = (if groupId p = None then Some (ROOT_GROUP_ID e) else groupId p)"
proof -
  obtain m q n1 where pop: "populateMissingConnectionIds e p (guidsGenerated s) = (m, q, n1)"
    by (cases "populateMissingConnectionIds e p (guidsGenerated s)") auto
  with assms have p1: "p1 = q"
    and s1: "s1 = writeConnectionsToSettings
                    (filter (\<lambda>v. \<not> isSameProfile e v q) (globalConnections s) @ [q]) Global
                    (s\<lparr>guidsGenerated := n1\<rparr>)"
    by (auto simp: addConnection_def getConnectionsFromSettings_def Let_def)
  note fields = populate_fields [OF pop]
  show "globalConnections s1
           = filter (\<lambda>v. \<not> isSameProfile e v p1) (globalConnections s) @ [p1]"
    and "workspaceConnections s1 = workspaceConnections s"
    and "workspaceFolderConnections s1 = workspaceFolderConnections s"
    and "globalGroups s1 = globalGroups s"
    using p1 s1 by (simp_all add: writeConnectionsToSettings_def)
  show "hasConnectionInformation e p1 = hasConnectionInformation e p"
    using p1 fields by (simp add: hasConnectionInformation_def)
  show "displayKey p1 = displayKey p"
    using p1 fields by (simp add: displayKey_def)
  show "groupId p1 = (if groupId p = None then Some (ROOT_GROUP_ID e) else groupId p)"
    using p1 fields by simp
qed

text \<open>
  C8, for the profiles that the listing keeps. Let \<^verbatim>\<open>addConnection(p)\<close> to the user
  settings leave the profile as \<open>p1\<close> (with its id and group back-filled). If \<open>p\<close> has
  connection information, its group is absent or exists in the global scope, every stored
  profile has a display key, every stored profile with the id of \<open>p1\<close> is the same
  profile as \<open>p1\<close>, and \<open>p1\<close> is the same profile as itself, then
  \<^verbatim>\<open>getConnectionById\<close> of that id returns a profile that is the same as \<open>p1\<close>.
\<close>

theorem addConnection_roundtrip:
  assumes add: "addConnection e p Global s = (p1, s1)"
      and info: "hasConnectionInformation e p"
      and grp: "groupId p = None \<or> groupId p \<in> set (map group_id (getGroups e Global s))"
      and keys: "\<forall>q\<in>set (globalConnections s @ workspaceConnections s
                           @ workspaceFolderConnections s). displayKey q \<noteq> None"
      and ids: "\<forall>q\<in>set (globalConnections s @ workspaceConnections s
                           @ workspaceFolderConnections s).
                  profile_id q = profile_id p1 \<longrightarrow> isSameProfile e q p1"
      and refl: "isSameProfile e p1 p1"
  shows "\<exists>q s2. getConnectionById e (profile_id p1) s1 = (Inr (Some q), s2)
                \<and> isSameProfile e q p1"
proof -
  note after = addConnection_global [OF add]
  have key1: "displayKey p1 \<noteq> None"
    using info after(5,6) listable_has_key [of e p1] by simp
  have "\<forall>q\<in>set (globalConnections s1). displayKey q \<noteq> None"
    using keys key1 after(1) by auto
  moreover have "\<forall>q\<in>set (workspaceConnections s1 @ workspaceFolderConnections s1).
                   displayKey q \<noteq> None"
    using keys after(2,3) by auto
  ultimately obtain listed s2 where run: "getConnections e True s1 = (Inr listed, s2)"
    using getConnections_True_total by blast
  then have "fst (getConnections e True s1) = Inr listed" by simp
  from getConnections_True_result [OF this] obtain us ws
    where us: "array_sort (compareConnectionProfile e) (globalConnections s1) = Inr us"
      and ws: "array_sort (compareConnectionProfile e)
                 (filter (\<lambda>p. truthy (profile_id p))
                    (workspaceConnections s1 @ workspaceFolderConnections s1)) = Inr ws"
      and listed: "listed = filter (listable e s1) us @ filter (listable e s1) ws"
    by blast
  have set_us: "set us = set (globalConnections s1)"
    using array_sort_mset [OF us] by (metis set_mset_mset)
  have set_ws: "set ws \<subseteq> set (workspaceConnections s1 @ workspaceFolderConnections s1)"
    using array_sort_mset [OF ws] by (metis filter_is_subset set_mset_mset)
  have "listable e s1 p1"
    using info grp after(4,5,7)
    by (auto simp: listable_def getGroups_def getGroupsFromSettings_def getRootGroup_def)
  moreover have "p1 \<in> set us"
    using set_us after(1) by simp
  ultimately have "p1 \<in> set listed"
    using listed by simp
  then have "\<exists>x\<in>set listed. profile_id x = profile_id p1" by blast
  from find_member [OF this] obtain q
    where found: "find (\<lambda>profile. profile_id profile = profile_id p1) listed = Some q"
      and q: "q \<in> set listed" "profile_id q = profile_id p1"
    by blast
  from q(1) listed set_us set_ws after(1,2,3)
  have "q = p1 \<or> q \<in> set (globalConnections s @ workspaceConnections s
                           @ workspaceFolderConnections s)"
    by auto
  with ids refl q(2) have "isSameProfile e q p1" by blast
  moreover from run found have "getConnectionById e (profile_id p1) s1 = (Inr (Some q), s2)"
    by (simp add: getConnectionById_def)
  ultimately show ?thesis by blast
qed

lemma treeStore_add:
  "addConnection exampleEnv newProfile Global treeStore
     = (newProfile\<lparr>profile_id := Some ''#'', groupId := Some ''ROOT-ID''\<rparr>,
        treeStore\<lparr>globalConnections :=
                    globalConnections treeStore
                      @ [newProfile\<lparr>profile_id := Some ''#'', groupId := Some ''ROOT-ID''\<rparr>],
                  guidsGenerated := 1,
                  writes := [(connectionsArrayName, Global)]\<rparr>)"
  by (simp add: addConnection_def populateMissingConnectionIds_def addIdIfMissing_def
        newProfile_def treeStore_def model_defs example_defs Let_def)

theorem addConnection_roundtrip_witness:
  "\<exists>q s2. getConnectionById exampleEnv (Some ''#'') (snd (addConnection exampleEnv newProfile Global treeStore))
              = (Inr (Some q), s2)
         \<and> isSameProfile exampleEnv q
              (newProfile\<lparr>profile_id := Some ''#'', groupId := Some ''ROOT-ID''\<rparr>)"
proof -
  let ?p1 = "newProfile\<lparr>profile_id := Some ''#'', groupId := Some ''ROOT-ID''\<rparr>"
  have info: "hasConnectionInformation exampleEnv newProfile"
    by (simp add: newProfile_def model_defs example_defs)
  have grp: "groupId newProfile = None
      \<or> groupId newProfile \<in> set (map group_id (getGroups exampleEnv Global treeStore))"
    by (simp add: newProfile_def)
  have keys: "\<forall>q\<in>set (globalConnections treeStore @ workspaceConnections treeStore
                           @ workspaceFolderConnections treeStore). displayKey q \<noteq> None"
    by (simp add: treeStore_def model_defs example_defs)
  have ids: "\<forall>q\<in>set (globalConnections treeStore @ workspaceConnections treeStore
                           @ workspaceFolderConnections treeStore).
                  profile_id q = profile_id ?p1 \<longrightarrow> isSameProfile exampleEnv q ?p1"
    by (simp add: treeStore_def newProfile_def example_defs)
  have refl: "isSameProfile exampleEnv ?p1 ?p1"
    by (simp add: exampleEnv_def)
  from addConnection_roundtrip [OF treeStore_add info grp keys ids refl] show ?thesis
    by (simp add: treeStore_add)
qed

theorem addConnection_roundtrip_counterexample:
  "fst (addConnection exampleEnv (mkProfile ''c9'' ''no-such-group'' ''srv'') Global emptyStore)
     = mkProfile ''c9'' ''no-such-group'' ''srv''
   \<and> fst (getConnectionById exampleEnv (Some ''c9'')
          (snd (addConnection exampleEnv (mkProfile ''c9'' ''no-such-group'' ''srv'') Global
                  emptyStore))) = Inr None"
  by (simp add: getConnectionById_def addConnection_def populateMissingConnectionIds_def
                addIdIfMissing_def model_defs example_defs Let_def)

end
